theory Spec2Isabelle
  imports Complex_Main "HOL-Library.Sublist"
begin

section \<open>JavaScript strings\<close>

text \<open>
  A JavaScript string is a sequence of UTF-16 code units.  Literals of the source
  are written as Isabelle string literals and converted with \<open>js\<close>; every literal of
  the modelled code is ASCII except the rupee sign U+20B9.
\<close>

type_synonym jsstring = "nat list"

definition js :: "string \<Rightarrow> jsstring" where
  "js s = map of_char s"

definition rupee :: jsstring where
  "rupee = [0x20B9]"

section \<open>The response gate: \<open>validateAIResponse\<close> (src/lib/ai.ts)\<close>

text \<open>
  The four patterns of the source have the shape \<open>/\<bsol>bphrase\<bsol>b/i\<close>: a word-boundary
  assertion, the characters of the phrase, a word-boundary assertion, matched
  ignoring case and without the unicode flag.  For such a pattern the word
  characters are \<open>[A-Za-z0-9_]\<close>, and a code unit is canonicalised by upper-casing
  it; a code unit of 128 or above never canonicalises to an ASCII one, so for
  comparison with the ASCII pattern characters it is left as it is.
\<close>

definition is_word_char :: "nat \<Rightarrow> bool" where
  "is_word_char c \<longleftrightarrow>
     (48 \<le> c \<and> c \<le> 57) \<or> (65 \<le> c \<and> c \<le> 90) \<or> c = 95 \<or> (97 \<le> c \<and> c \<le> 122)"

definition canonicalize :: "nat \<Rightarrow> nat" where
  "canonicalize c = (if 97 \<le> c \<and> c \<le> 122 then c - 32 else c)"

datatype rx_atom = WordBoundary | Chr nat

fun is_word_opt :: "nat option \<Rightarrow> bool" where
  "is_word_opt None = False"
| "is_word_opt (Some c) = is_word_char c"

fun next_char :: "jsstring \<Rightarrow> nat option" where
  "next_char [] = None"
| "next_char (x # xs) = Some x"

definition at_word_boundary :: "nat option \<Rightarrow> jsstring \<Rightarrow> bool" where
  "at_word_boundary prev s \<longleftrightarrow> is_word_opt prev \<noteq> is_word_opt (next_char s)"

text \<open>Matching a pattern at the current position; \<open>prev\<close> is the code unit before it.\<close>

fun rx_match_here :: "rx_atom list \<Rightarrow> nat option \<Rightarrow> jsstring \<Rightarrow> bool" where
  "rx_match_here [] prev s = True"
| "rx_match_here (WordBoundary # r) prev s =
     (at_word_boundary prev s \<and> rx_match_here r prev s)"
| "rx_match_here (Chr c # r) prev [] = False"
| "rx_match_here (Chr c # r) prev (x # xs) =
     (canonicalize x = canonicalize c \<and> rx_match_here r (Some x) xs)"

text \<open>\<open>RegExp.prototype.test\<close> without the global flag tries every start position.\<close>

fun rx_search :: "rx_atom list \<Rightarrow> nat option \<Rightarrow> jsstring \<Rightarrow> bool" where
  "rx_search p prev [] = rx_match_here p prev []"
| "rx_search p prev (x # xs) = (rx_match_here p prev (x # xs) \<or> rx_search p (Some x) xs)"

definition rx_test :: "rx_atom list \<Rightarrow> jsstring \<Rightarrow> bool" where
  "rx_test p s = rx_search p None s"

definition rx_phrase :: "jsstring \<Rightarrow> rx_atom list" where
  "rx_phrase ph = WordBoundary # map Chr ph @ [WordBoundary]"

definition denylist :: "jsstring list" where
  "denylist = [js ''guaranteed approval'', js ''100% approval'',
               js ''no credit check'', js ''instant approval'']"

definition suspiciousPatterns :: "rx_atom list list" where
  "suspiciousPatterns = map rx_phrase denylist"

record ValidationOutcome =
  valid :: bool
  reason :: "jsstring option"

definition suspicious_reason :: jsstring where
  "suspicious_reason = js ''Response contains suspicious claims not in product data''"

fun validate_loop :: "rx_atom list list \<Rightarrow> jsstring \<Rightarrow> ValidationOutcome" where
  "validate_loop [] response = \<lparr>valid = True, reason = None\<rparr>"
| "validate_loop (pattern # rest) response =
     (if rx_test pattern response
      then \<lparr>valid = False, reason = Some suspicious_reason\<rparr>
      else validate_loop rest response)"

definition validateAIResponse :: "jsstring \<Rightarrow> ValidationOutcome" where
  "validateAIResponse response = validate_loop suspiciousPatterns response"

subsection \<open>Two readings of the matching policy\<close>

text \<open>The phrase occurs in the text as a substring, ignoring ASCII letter case.\<close>

definition ci_substring :: "jsstring \<Rightarrow> jsstring \<Rightarrow> bool" where
  "ci_substring ph t \<longleftrightarrow> sublist (map canonicalize ph) (map canonicalize t)"

text \<open>
  The phrase occurs ignoring case, and the occurrence is neither preceded nor
  followed by a word character.
\<close>

definition phrase_at_word_boundaries :: "jsstring \<Rightarrow> jsstring \<Rightarrow> bool" where
  "phrase_at_word_boundaries ph t \<longleftrightarrow>
     (\<exists>pre w post. t = pre @ w @ post \<and> map canonicalize w = map canonicalize ph \<and>
        (pre = [] \<or> \<not> is_word_char (last pre)) \<and>
        (post = [] \<or> \<not> is_word_char (hd post)))"


section \<open>JavaScript values of the product record\<close>

text \<open>
  A JavaScript number is a double: not-a-number, an infinity, or a finite value, which
  is a rational.  Comparisons of finite values are exact.  How a number is printed
  (\<open>Number::toString\<close>, \<open>toLocaleString('en-IN')\<close>) and how a string is lower-cased are
  functions of the runtime, not of this repository; they are parameters of the model.
  \<open>toLocaleString_enIN\<close> answers \<open>None\<close> where the call throws.
\<close>

datatype jsnum = NaN | PosInf | NegInf | Fin rat

record platform =
  numToString :: "jsnum \<Rightarrow> jsstring"
  toLocaleString_enIN :: "jsnum \<Rightarrow> jsstring option"
  toLowerCase :: "jsstring \<Rightarrow> jsstring"

text \<open>Truthiness of an optional number and of an optional string (\<open>None\<close> is \<open>undefined\<close>).\<close>

fun truthy_num :: "jsnum option \<Rightarrow> bool" where
  "truthy_num None = False"
| "truthy_num (Some n) = (n \<noteq> NaN \<and> n \<noteq> Fin 0)"

fun truthy_str :: "jsstring option \<Rightarrow> bool" where
  "truthy_str None = False"
| "truthy_str (Some s) = (s \<noteq> [])"

text \<open>The decimal digits of an array index, as a template literal prints \<open>i + 1\<close>.\<close>

fun show_nat :: "nat \<Rightarrow> jsstring" where
  "show_nat n = (if n < 10 then [48 + n] else show_nat (n div 10) @ [48 + n mod 10])"

declare show_nat.simps [simp del]

text \<open>\<open>Array.prototype.join\<close>.\<close>

fun js_join :: "jsstring \<Rightarrow> jsstring list \<Rightarrow> jsstring" where
  "js_join sep [] = []"
| "js_join sep [x] = x"
| "js_join sep (x # y # ys) = x @ sep @ js_join sep (y # ys)"

text \<open>\<open>String.prototype.trim\<close> removes white space and line terminators at both ends.\<close>

definition is_js_whitespace :: "nat \<Rightarrow> bool" where
  "is_js_whitespace c \<longleftrightarrow>
     (9 \<le> c \<and> c \<le> 13) \<or> c = 32 \<or> c = 0xA0 \<or> c = 0x1680 \<or>
     (0x2000 \<le> c \<and> c \<le> 0x200A) \<or> c = 0x2028 \<or> c = 0x2029 \<or> c = 0x202F \<or>
     c = 0x205F \<or> c = 0x3000 \<or> c = 0xFEFF"

definition js_trimStart :: "jsstring \<Rightarrow> jsstring" where
  "js_trimStart s = dropWhile is_js_whitespace s"

definition js_trimEnd :: "jsstring \<Rightarrow> jsstring" where
  "js_trimEnd s = rev (dropWhile is_js_whitespace (rev s))"

definition js_trim :: "jsstring \<Rightarrow> jsstring" where
  "js_trim s = js_trimEnd (js_trimStart s)"

section \<open>The data model (src/types/index.ts)\<close>

datatype LoanType = Personal | Education | Vehicle | Home | Credit_line | Debt_consolidation

fun loanTypeString :: "LoanType \<Rightarrow> jsstring" where
  "loanTypeString Personal = js ''personal''"
| "loanTypeString Education = js ''education''"
| "loanTypeString Vehicle = js ''vehicle''"
| "loanTypeString Home = js ''home''"
| "loanTypeString Credit_line = js ''credit_line''"
| "loanTypeString Debt_consolidation = js ''debt_consolidation''"

datatype ChatRole = User | Assistant

fun roleString :: "ChatRole \<Rightarrow> jsstring" where
  "roleString User = js ''user''"
| "roleString Assistant = js ''assistant''"

text \<open>\<open>role.toUpperCase()\<close> on the two role strings.\<close>

fun roleUpperCase :: "ChatRole \<Rightarrow> jsstring" where
  "roleUpperCase User = js ''USER''"
| "roleUpperCase Assistant = js ''ASSISTANT''"

record ProductFaq =
  faq_q :: jsstring
  faq_a :: jsstring

text \<open>
  An optional field (\<open>field?: T\<close>) is an \<open>option\<close>, \<open>None\<close> standing for \<open>undefined\<close>.  The
  minimum income is declared a number, but \<open>formatCurrencyINR\<close> accepts \<open>null\<close> and
  \<open>undefined\<close> for it, so the model keeps the three cases apart.  The fields \<open>id\<close>,
  \<open>terms\<close>, \<open>matchScore\<close>, \<open>created_at\<close> and \<open>updated_at\<close> are read by none of the modelled
  functions and are left out.
\<close>

datatype 'a nullable = Undefined | Null | Value 'a

record Product =
  name :: jsstring
  bank :: jsstring
  loan_type :: LoanType
  rate_apr :: jsnum
  min_income :: "jsnum nullable"
  min_credit_score :: jsnum
  tenure_min_months :: jsnum
  tenure_max_months :: jsnum
  processing_fee_pct :: "jsnum option"
  prepayment_allowed :: "bool option"
  disbursal_speed :: "jsstring option"
  docs_level :: "jsstring option"
  summary :: "jsstring option"
  faq :: "ProductFaq list option"

record Turn =
  role :: ChatRole
  content :: jsstring

section \<open>The prompt builder (src/lib/ai.ts)\<close>

definition not_specified :: jsstring where
  "not_specified = js ''Not specified''"

fun formatCurrencyINR :: "platform \<Rightarrow> jsnum nullable \<Rightarrow> jsstring" where
  "formatCurrencyINR pf Null = not_specified"
| "formatCurrencyINR pf Undefined = not_specified"
| "formatCurrencyINR pf (Value amount) =
     (if amount = NaN then not_specified
      else (case toLocaleString_enIN pf amount of
              Some s \<Rightarrow> rupee @ s
            | None \<Rightarrow> rupee @ numToString pf amount))"

text \<open>One rendered FAQ entry, \<open>i\<close> being its index in the list.\<close>

definition faqEntry :: "nat \<times> ProductFaq \<Rightarrow> jsstring" where
  "faqEntry = (\<lambda>(i, f).
     js ''\<newline>Q'' @ show_nat (i + 1) @ js '': '' @ faq_q f @
     js ''\<newline>A'' @ show_nat (i + 1) @ js '': '' @ faq_a f @ js ''\<newline>'')"

definition productContext :: "platform \<Rightarrow> Product \<Rightarrow> jsstring" where
  "productContext pf product = js_trim (
     js ''\<newline>PRODUCT INFORMATION:\<newline>- Product Name: '' @ name product @
     js ''\<newline>- Bank: '' @ bank product @
     js ''\<newline>- Loan Type: '' @ loanTypeString (loan_type product) @
     js ''\<newline>- Interest Rate (APR): '' @ numToString pf (rate_apr product) @
     js ''%\<newline>- Minimum Income Required: '' @ formatCurrencyINR pf (min_income product) @
     js '' per month\<newline>- Minimum Credit Score: '' @ numToString pf (min_credit_score product) @
     js ''\<newline>- Tenure Range: '' @ numToString pf (tenure_min_months product) @
     js '' to '' @ numToString pf (tenure_max_months product) @ js '' months\<newline>'' @
     (case processing_fee_pct product of
        Some fee \<Rightarrow> if truthy_num (Some fee)
                    then js ''- Processing Fee: '' @ numToString pf fee @ js ''%'' else []
      | None \<Rightarrow> []) @ js ''\<newline>'' @
     (case prepayment_allowed product of
        Some allowed \<Rightarrow> js ''- Prepayment Penalty: '' @ (if allowed then js ''Yes'' else js ''No'')
      | None \<Rightarrow> []) @ js ''\<newline>'' @
     (case disbursal_speed product of
        Some speed \<Rightarrow> if truthy_str (Some speed) then js ''- Disbursal Speed: '' @ speed else []
      | None \<Rightarrow> []) @ js ''\<newline>'' @
     (case docs_level product of
        Some docs \<Rightarrow> if truthy_str (Some docs) then js ''- Documentation Level: '' @ docs else []
      | None \<Rightarrow> []) @ js ''\<newline>'' @
     (case summary product of
        Some text \<Rightarrow> if truthy_str (Some text) then js ''- Summary: '' @ text else []
      | None \<Rightarrow> []) @ js ''\<newline>\<newline>'' @
     (case faq product of
        Some faqs \<Rightarrow> if length faqs > 0
                     then js ''\<newline>FREQUENTLY ASKED QUESTIONS:\<newline>'' @
                          concat (map faqEntry (enumerate 0 faqs))
                     else []
      | None \<Rightarrow> []) @ js ''\<newline>'')"

definition historyContext :: "Turn list \<Rightarrow> jsstring" where
  "historyContext history =
     (if length history > 0
      then js ''\<newline>PREVIOUS CONVERSATION:\<newline>'' @
           js_join (js ''\<newline>'')
             (map (\<lambda>msg. roleUpperCase (role msg) @ js '': '' @ content msg) history) @
           js ''\<newline>''
      else [])"

definition buildGroundedPrompt :: "platform \<Rightarrow> Product \<Rightarrow> jsstring \<Rightarrow> Turn list \<Rightarrow> jsstring" where
  \<open>buildGroundedPrompt pf product userMessage history =
     js ''You are a helpful loan advisor assistant. You are helping a customer understand the "'' @
     name product @ js ''" loan product from '' @ bank product @
     js ''.\<newline>\<newline>CRITICAL RULES:\<newline>1. Answer ONLY using the product information provided above\<newline>2. When referencing specific data, cite the field name (e.g., "The APR is '' @
     numToString pf (rate_apr product) @
     js ''% as stated in our product details")\<newline>3. If the user asks about information NOT in the product data, respond with: "I don't have that specific information in our product database. However, I can help you with [list available topics] or connect you with our support team for detailed assistance."\<newline>4. Be conversational but accurate\<newline>5. If you're unsure, acknowledge it rather than guessing\<newline>\<newline>'' @
     productContext pf product @ js ''\<newline>\<newline>'' @
     historyContext history @ js ''\<newline>\<newline>USER QUESTION: '' @ userMessage @
     js ''\<newline>\<newline>Provide a helpful, accurate response based ONLY on the information above:''\<close>


section \<open>The lines and the parts of a prompt\<close>

text \<open>
  The lines of a string are the pieces between its line feeds.  \<open>trim\<close> acts on them by
  dropping the trailing blank lines and the trailing white space of the last line kept.
\<close>

fun js_lines :: "jsstring \<Rightarrow> jsstring list" where
  "js_lines [] = [[]]"
| "js_lines (c # cs) =
     (if c = 10 then [] # js_lines cs
      else (case js_lines cs of l # ls \<Rightarrow> (c # l) # ls | [] \<Rightarrow> [[c]]))"

definition single_line :: "jsstring \<Rightarrow> bool" where
  "single_line s \<longleftrightarrow> 10 \<notin> set s"

definition blank :: "jsstring \<Rightarrow> bool" where
  "blank l \<longleftrightarrow> list_all is_js_whitespace l"

definition drop_trailing_blank :: "jsstring list \<Rightarrow> jsstring list" where
  "drop_trailing_blank ls = rev (dropWhile blank (rev ls))"

definition trim_lines :: "jsstring list \<Rightarrow> jsstring list" where
  "trim_lines ls =
     (let kept = drop_trailing_blank ls
      in if kept = [] then [[]] else butlast kept @ [js_trimEnd (last kept)])"

text \<open>A property of lines that no blank line has and that trailing white space does not change.\<close>

definition trim_stable :: "(jsstring \<Rightarrow> bool) \<Rightarrow> bool" where
  "trim_stable P \<longleftrightarrow> (\<forall>l. blank l \<longrightarrow> \<not> P l) \<and> (\<forall>l. P (js_trimEnd l) = P l)"

text \<open>
  The lines of the listing as the template writes them: the eight that are always
  rendered, then one slot for each optional field, empty when the field is not rendered.
\<close>

definition required_lines :: "platform \<Rightarrow> Product \<Rightarrow> jsstring list" where
  "required_lines pf product =
     [js ''PRODUCT INFORMATION:'',
      js ''- Product Name: '' @ name product,
      js ''- Bank: '' @ bank product,
      js ''- Loan Type: '' @ loanTypeString (loan_type product),
      js ''- Interest Rate (APR): '' @ numToString pf (rate_apr product) @ js ''%'',
      js ''- Minimum Income Required: '' @ formatCurrencyINR pf (min_income product) @
        js '' per month'',
      js ''- Minimum Credit Score: '' @ numToString pf (min_credit_score product),
      js ''- Tenure Range: '' @ numToString pf (tenure_min_months product) @ js '' to '' @
        numToString pf (tenure_max_months product) @ js '' months'']"

definition fee_line :: "platform \<Rightarrow> Product \<Rightarrow> jsstring" where
  "fee_line pf product =
     (case processing_fee_pct product of
        Some fee \<Rightarrow> if truthy_num (Some fee)
                    then js ''- Processing Fee: '' @ numToString pf fee @ js ''%'' else []
      | None \<Rightarrow> [])"

definition prepayment_line :: "Product \<Rightarrow> jsstring" where
  "prepayment_line product =
     (case prepayment_allowed product of
        Some allowed \<Rightarrow> js ''- Prepayment Penalty: '' @ (if allowed then js ''Yes'' else js ''No'')
      | None \<Rightarrow> [])"

definition speed_line :: "Product \<Rightarrow> jsstring" where
  "speed_line product =
     (case disbursal_speed product of
        Some speed \<Rightarrow> if truthy_str (Some speed) then js ''- Disbursal Speed: '' @ speed else []
      | None \<Rightarrow> [])"

definition docs_line :: "Product \<Rightarrow> jsstring" where
  "docs_line product =
     (case docs_level product of
        Some docs \<Rightarrow> if truthy_str (Some docs) then js ''- Documentation Level: '' @ docs else []
      | None \<Rightarrow> [])"

definition summary_line :: "Product \<Rightarrow> jsstring" where
  "summary_line product =
     (case summary product of
        Some text \<Rightarrow> if truthy_str (Some text) then js ''- Summary: '' @ text else []
      | None \<Rightarrow> [])"

definition optional_lines :: "platform \<Rightarrow> Product \<Rightarrow> jsstring list" where
  "optional_lines pf product =
     [fee_line pf product, prepayment_line product, speed_line product, docs_line product,
      summary_line product]"

definition listing :: "platform \<Rightarrow> Product \<Rightarrow> jsstring" where
  "listing pf product = js_join [10] (required_lines pf product @ optional_lines pf product)"

text \<open>
  The FAQ block, the transcript, the system instruction, the question and the closing
  directive as the template writes them, without the line feeds between them.
\<close>

definition faqBlock :: "Product \<Rightarrow> jsstring" where
  "faqBlock product =
     (case faq product of
        Some faqs \<Rightarrow> if length faqs > 0
                     then js ''FREQUENTLY ASKED QUESTIONS:'' @ [10] @
                          concat (map faqEntry (enumerate 0 faqs))
                     else []
      | None \<Rightarrow> [])"

definition transcript :: "Turn list \<Rightarrow> jsstring" where
  "transcript history =
     (if length history > 0
      then js ''PREVIOUS CONVERSATION:'' @ [10] @
           js_join [10] (map (\<lambda>msg. roleUpperCase (role msg) @ js '': '' @ content msg) history)
      else [])"

definition systemInstruction :: "platform \<Rightarrow> Product \<Rightarrow> jsstring" where
  \<open>systemInstruction pf product =
     js ''You are a helpful loan advisor assistant. You are helping a customer understand the "'' @
     name product @ js ''" loan product from '' @ bank product @
     js ''.\<newline>\<newline>CRITICAL RULES:\<newline>1. Answer ONLY using the product information provided above\<newline>2. When referencing specific data, cite the field name (e.g., "The APR is '' @
     numToString pf (rate_apr product) @
     js ''% as stated in our product details")\<newline>3. If the user asks about information NOT in the product data, respond with: "I don't have that specific information in our product database. However, I can help you with [list available topics] or connect you with our support team for detailed assistance."\<newline>4. Be conversational but accurate\<newline>5. If you're unsure, acknowledge it rather than guessing''\<close>

definition questionLine :: "jsstring \<Rightarrow> jsstring" where
  "questionLine userMessage = js ''USER QUESTION: '' @ userMessage"

definition closingDirective :: jsstring where
  "closingDirective = js ''Provide a helpful, accurate response based ONLY on the information above:''"

text \<open>The parts occur in the string one after the other, without overlap.\<close>

fun in_order :: "jsstring list \<Rightarrow> jsstring \<Rightarrow> bool" where
  "in_order [] s = True"
| "in_order (part # parts) s = (\<exists>pre post. s = pre @ part @ post \<and> in_order parts post)"

text \<open>The listing and the FAQ block as \<open>trim\<close> leaves them.\<close>

definition listingPart :: "platform \<Rightarrow> Product \<Rightarrow> jsstring" where
  "listingPart pf product = js_trimEnd (listing pf product)"

definition faqPart :: "Product \<Rightarrow> jsstring" where
  "faqPart product = js_trimEnd (faqBlock product)"

subsection \<open>Sample inputs\<close>

text \<open>
  A runtime that prints whole numbers in decimal, groups their digits the Indian way
  (the last three, then pairs) and lower-cases ASCII letters; a product with every
  field set; two prior turns.
\<close>

fun group_pairs :: "jsstring \<Rightarrow> jsstring" where
  "group_pairs ds =
     (if length ds \<le> 2 then ds
      else group_pairs (take (length ds - 2) ds) @ [44] @ drop (length ds - 2) ds)"

declare group_pairs.simps [simp del]

definition indian_grouping :: "jsstring \<Rightarrow> jsstring" where
  "indian_grouping ds =
     (if length ds \<le> 3 then ds
      else group_pairs (take (length ds - 3) ds) @ [44] @ drop (length ds - 3) ds)"

definition ascii_lower :: "jsstring \<Rightarrow> jsstring" where
  "ascii_lower s = map (\<lambda>c. if 65 \<le> c \<and> c \<le> 90 then c + 32 else c) s"

fun natural_of :: "jsnum \<Rightarrow> nat option" where
  "natural_of (Fin r) = (if 0 \<le> r \<and> of_int \<lfloor>r\<rfloor> = r then Some (nat \<lfloor>r\<rfloor>) else None)"
| "natural_of NaN = None"
| "natural_of PosInf = None"
| "natural_of NegInf = None"

definition sample_platform :: platform where
  "sample_platform =
     \<lparr>numToString = (\<lambda>n. case natural_of n of Some k \<Rightarrow> show_nat k | None \<Rightarrow> js ''NaN''),
      toLocaleString_enIN =
        (\<lambda>n. case natural_of n of Some k \<Rightarrow> Some (indian_grouping (show_nat k)) | None \<Rightarrow> None),
      toLowerCase = ascii_lower\<rparr>"

definition sample_product :: Product where
  "sample_product =
     \<lparr>name = js ''Quick Personal Loan'', bank = js ''Acme Bank'', loan_type = Personal,
      rate_apr = Fin 9, min_income = Value (Fin 25000), min_credit_score = Fin 700,
      tenure_min_months = Fin 12, tenure_max_months = Fin 60,
      processing_fee_pct = Some (Fin 1), prepayment_allowed = Some False,
      disbursal_speed = Some (js ''fast''), docs_level = Some (js ''minimal''),
      summary = Some (js ''A quick loan.''),
      faq = Some [\<lparr>faq_q = js ''Is there a fee?'', faq_a = js ''Yes, 1%.''\<rparr>,
                  \<lparr>faq_q = js ''How fast?'', faq_a = js ''Two days.''\<rparr>]\<rparr>"

definition sample_history :: "Turn list" where
  "sample_history = [\<lparr>role = User, content = js ''Hello''\<rparr>,
                     \<lparr>role = Assistant, content = js ''Hi, how can I help?''\<rparr>]"

subsection \<open>Single-line inputs\<close>

text \<open>
  No text of the inputs, and no number of the product as the runtime prints it, holds a
  line feed.
\<close>

definition opt_single_line :: "jsstring option \<Rightarrow> bool" where
  "opt_single_line v = (case v of Some s \<Rightarrow> single_line s | None \<Rightarrow> True)"

definition single_line_product :: "platform \<Rightarrow> Product \<Rightarrow> bool" where
  "single_line_product pf product \<longleftrightarrow>
     single_line (name product) \<and> single_line (bank product) \<and>
     single_line (numToString pf (rate_apr product)) \<and>
     single_line (formatCurrencyINR pf (min_income product)) \<and>
     single_line (numToString pf (min_credit_score product)) \<and>
     single_line (numToString pf (tenure_min_months product)) \<and>
     single_line (numToString pf (tenure_max_months product)) \<and>
     opt_single_line (map_option (numToString pf) (processing_fee_pct product)) \<and>
     opt_single_line (disbursal_speed product) \<and>
     opt_single_line (docs_level product) \<and>
     opt_single_line (summary product) \<and>
     (case faq product of
        Some faqs \<Rightarrow> list_all (\<lambda>f. single_line (faq_q f) \<and> single_line (faq_a f)) faqs
      | None \<Rightarrow> True)"

definition single_line_inputs :: "platform \<Rightarrow> Product \<Rightarrow> jsstring \<Rightarrow> Turn list \<Rightarrow> bool" where
  "single_line_inputs pf product userMessage history \<longleftrightarrow>
     single_line_product pf product \<and> single_line userMessage \<and>
     list_all (\<lambda>msg. single_line (content msg)) history"

subsection \<open>The lines of a prompt\<close>

text \<open>
  The two lines of a FAQ entry; a line that reads as one of them starts with
  \<open>Q\<close> or \<open>A\<close> and a digit.
\<close>

definition question_line_of :: "nat \<times> ProductFaq \<Rightarrow> jsstring" where
  "question_line_of = (\<lambda>(i, f). js ''Q'' @ show_nat (i + 1) @ js '': '' @ faq_q f)"

definition answer_line_of :: "nat \<times> ProductFaq \<Rightarrow> jsstring" where
  "answer_line_of = (\<lambda>(i, f). js ''A'' @ show_nat (i + 1) @ js '': '' @ faq_a f)"

definition qa_lines :: "ProductFaq list \<Rightarrow> jsstring list" where
  "qa_lines faqs = concat (map (\<lambda>e. [question_line_of e, answer_line_of e]) (enumerate 0 faqs))"

definition is_qa_line :: "jsstring \<Rightarrow> bool" where
  "is_qa_line l \<longleftrightarrow>
     (case l of c # d # _ \<Rightarrow> (c = 81 \<or> c = 65) \<and> 48 \<le> d \<and> d \<le> 57 | _ \<Rightarrow> False)"

definition line_head :: "jsstring \<Rightarrow> nat option" where
  "line_head l = (case l of [] \<Rightarrow> None | c # _ \<Rightarrow> Some c)"

text \<open>
  The lines of the system instruction, of a prior turn, of the FAQ slot of the template,
  of the product context before \<open>trim\<close>, and of the history context.
\<close>

definition instruction_lines :: "platform \<Rightarrow> Product \<Rightarrow> jsstring list" where
  \<open>instruction_lines pf product =
     [js ''You are a helpful loan advisor assistant. You are helping a customer understand the "'' @
        name product @ js ''" loan product from '' @ bank product @ js ''.'',
      [],
      js ''CRITICAL RULES:'',
      js ''1. Answer ONLY using the product information provided above'',
      js ''2. When referencing specific data, cite the field name (e.g., "The APR is '' @
        numToString pf (rate_apr product) @ js ''% as stated in our product details")'',
      js ''3. If the user asks about information NOT in the product data, respond with: "I don't have that specific information in our product database. However, I can help you with [list available topics] or connect you with our support team for detailed assistance."'',
      js ''4. Be conversational but accurate'',
      js ''5. If you're unsure, acknowledge it rather than guessing'']\<close>

definition turn_line :: "Turn \<Rightarrow> jsstring" where
  "turn_line msg = roleUpperCase (role msg) @ js '': '' @ content msg"

definition faq_slot_lines :: "Product \<Rightarrow> jsstring list" where
  "faq_slot_lines product =
     (case faq product of
        Some faqs \<Rightarrow>
          if length faqs > 0
          then [[], js ''FREQUENTLY ASKED QUESTIONS:''] @
               concat (map (\<lambda>e. [[], question_line_of e, answer_line_of e]) (enumerate 0 faqs)) @
               [[]]
          else [[]]
      | None \<Rightarrow> [[]])"

definition context_lines :: "platform \<Rightarrow> Product \<Rightarrow> jsstring list" where
  "context_lines pf product =
     required_lines pf product @ optional_lines pf product @ [[]] @
     faq_slot_lines product @ [[]]"

definition history_lines :: "Turn list \<Rightarrow> jsstring list" where
  "history_lines history =
     (if length history > 0
      then [[], js ''PREVIOUS CONVERSATION:''] @ map turn_line history @ [[]]
      else [[]])"

text \<open>
  A property of lines that only lines starting with a hyphen or with \<open>F\<close>, or reading as
  question or answer lines, have; a plain line has no such property.  For single-line
  inputs the lines outside the product context are plain.
\<close>

definition context_only :: "(jsstring \<Rightarrow> bool) \<Rightarrow> bool" where
  "context_only P \<longleftrightarrow>
     (\<forall>l. P l \<longrightarrow> line_head l = Some 45 \<or> line_head l = Some 70 \<or> is_qa_line l)"

definition plain_line :: "jsstring \<Rightarrow> bool" where
  "plain_line l \<longleftrightarrow> line_head l \<noteq> Some 45 \<and> line_head l \<noteq> Some 70 \<and> \<not> is_qa_line l"

text \<open>The labels that start the lines of the optional fields and of the minimum income.\<close>

definition fee_label :: jsstring where "fee_label = js ''- Processing Fee:''"

definition prepayment_label :: jsstring where "prepayment_label = js ''- Prepayment Penalty:''"

definition speed_label :: jsstring where "speed_label = js ''- Disbursal Speed:''"

definition docs_label :: jsstring where "docs_label = js ''- Documentation Level:''"

definition summary_label :: jsstring where "summary_label = js ''- Summary:''"

definition income_label :: jsstring where "income_label = js ''- Minimum Income Required:''"

definition faq_header :: jsstring where "faq_header = js ''FREQUENTLY ASKED QUESTIONS:''"

definition income_line :: "platform \<Rightarrow> Product \<Rightarrow> jsstring" where
  "income_line pf product =
     js ''- Minimum Income Required: '' @ formatCurrencyINR pf (min_income product) @
     js '' per month''"

definition count_lines :: "jsstring \<Rightarrow> jsstring \<Rightarrow> nat" where
  "count_lines label s = length (filter (prefix label) (js_lines s))"

definition trim_last :: "jsstring list \<Rightarrow> jsstring list" where
  "trim_last ls = (if ls = [] then [] else butlast ls @ [js_trimEnd (last ls)])"

definition faq_list :: "Product \<Rightarrow> ProductFaq list" where
  "faq_list product = (case faq product of Some faqs \<Rightarrow> faqs | None \<Rightarrow> [])"

text \<open>
  A product whose processing fee is zero, and one whose summary carries a line feed
  followed by the text of the FAQ header.
\<close>

definition zero_fee_product :: Product where
  "zero_fee_product = sample_product\<lparr>processing_fee_pct := Some (Fin 0)\<rparr>"

definition injected_product :: Product where
  "injected_product = sample_product
     \<lparr>summary := Some (js ''Low rate\<newline>FREQUENTLY ASKED QUESTIONS:''), faq := Some []\<rparr>"

section \<open>The simulated reply: \<open>simulateAIResponse\<close> (src/lib/ai.ts)\<close>

text \<open>\<open>String.prototype.includes\<close>.\<close>

definition js_includes :: "jsstring \<Rightarrow> jsstring \<Rightarrow> bool" where
  "js_includes s pat \<longleftrightarrow> sublist pat s"

text \<open>
  Comparison of numbers: false whenever an operand is NaN.  \<open>Math.floor(x / 12)\<close> is
  taken on the exact quotient; for the whole month counts the schema admits this is
  the floor of the double quotient.
\<close>

fun num_le :: "jsnum \<Rightarrow> jsnum \<Rightarrow> bool" where
  "num_le NaN y = False"
| "num_le x NaN = False"
| "num_le NegInf y = True"
| "num_le x PosInf = True"
| "num_le PosInf y = False"
| "num_le x NegInf = False"
| "num_le (Fin a) (Fin b) = (a \<le> b)"

fun num_lt :: "jsnum \<Rightarrow> jsnum \<Rightarrow> bool" where
  "num_lt NaN y = False"
| "num_lt x NaN = False"
| "num_lt PosInf y = False"
| "num_lt x NegInf = False"
| "num_lt NegInf y = True"
| "num_lt x PosInf = True"
| "num_lt (Fin a) (Fin b) = (a < b)"

fun floor_div12 :: "jsnum \<Rightarrow> jsnum" where
  "floor_div12 (Fin r) = Fin (of_int \<lfloor>r / 12\<rfloor>)"
| "floor_div12 NaN = NaN"
| "floor_div12 PosInf = PosInf"
| "floor_div12 NegInf = NegInf"

definition simulateAIResponse :: "platform \<Rightarrow> Product \<Rightarrow> jsstring \<Rightarrow> jsstring" where
  \<open>simulateAIResponse pf product userMessage =
     (let q = toLowerCase pf userMessage in
      if js_includes q (js ''apr'') \<or> js_includes q (js ''interest'') \<or> js_includes q (js ''rate'')
      then js ''The '' @ name product @ js '' has an annual percentage rate (APR) of '' @
           numToString pf (rate_apr product) @ js ''%. '' @
           (if num_le (rate_apr product) (Fin (19 / 2))
            then js ''This is considered a competitive low rate in the current market.''
            else js ''This rate is standard for this type of loan.'')
      else if js_includes q (js ''eligible'') \<or> js_includes q (js ''qualify'') \<or>
              js_includes q (js ''requirement'')
      then js ''To qualify for the '' @ name product @
           js '', you need:\<newline>- Minimum credit score: '' @
           numToString pf (min_credit_score product) @
           js ''\<newline>- Minimum monthly income: '' @ formatCurrencyINR pf (min_income product) @
           js ''\<newline>- The loan tenure ranges from '' @
           numToString pf (tenure_min_months product) @ js '' to '' @
           numToString pf (tenure_max_months product) @ js '' months.''
      else if js_includes q (js ''prepayment'') \<or> js_includes q (js ''penalty'') \<or>
              js_includes q (js ''early'')
      then (if prepayment_allowed product = Some False
            then js ''Great news! The '' @ name product @
                 js '' does NOT have any prepayment penalties. You can pay off your loan early without any extra charges, which can save you money on interest.''
            else js ''The '' @ name product @ js '' allows prepayment. I'd recommend checking with '' @
                 bank product @
                 js '' directly about any applicable prepayment charges or conditions.'')
      else if js_includes q (js ''disbursal'') \<or> js_includes q (js ''fast'') \<or>
              js_includes q (js ''quick'') \<or> js_includes q (js ''how long'')
      then (if disbursal_speed product = Some (js ''fast'')
            then js ''The '' @ name product @
                 js '' offers fast disbursal, typically within 24-48 hours after your application is approved. This is great if you need funds urgently.''
            else js ''The '' @ name product @
                 js '' typically disburses funds within 3-5 business days after approval. The exact timeline may vary based on documentation verification.'')
      else if js_includes q (js ''document'') \<or> js_includes q (js ''docs'') \<or>
              js_includes q (js ''paperwork'')
      then (let docsInfo =
                  (case docs_level product of
                     Some docs \<Rightarrow> if truthy_str (Some docs)
                                  then js ''The documentation requirement level is '' @ docs @ js ''.''
                                  else []
                   | None \<Rightarrow> [])
            in js ''For the '' @ name product @
               js '', you'll need standard documentation including:\<newline>- Identity proof (Aadhaar, PAN card)\<newline>- Income proof (salary slips, bank statements)\<newline>- Address proof\<newline>'' @
               docsInfo)
      else if js_includes q (js ''fee'') \<or> js_includes q (js ''charge'') \<or> js_includes q (js ''cost'')
      then (case processing_fee_pct product of
              Some fee \<Rightarrow>
                if truthy_num (Some fee)
                then js ''The '' @ name product @ js '' has a processing fee of '' @
                     numToString pf fee @ js ''% of the loan amount. '' @
                     (if num_lt fee (Fin 2)
                      then js ''This is a relatively low processing fee compared to the market average.''
                      else [])
                else js ''I don't have specific information about processing fees in our product database. Please contact '' @
                     bank product @ js '' directly for detailed fee structure information.''
            | None \<Rightarrow>
                js ''I don't have specific information about processing fees in our product database. Please contact '' @
                bank product @ js '' directly for detailed fee structure information.'')
      else if js_includes q (js ''tenure'') \<or> js_includes q (js ''term'') \<or>
              js_includes q (js ''duration'')
      then js ''The '' @ name product @ js '' offers flexible tenure options ranging from '' @
           numToString pf (tenure_min_months product) @ js '' months ('' @
           numToString pf (floor_div12 (tenure_min_months product)) @ js '' years) to '' @
           numToString pf (tenure_max_months product) @ js '' months ('' @
           numToString pf (floor_div12 (tenure_max_months product)) @
           js '' years). You can choose a tenure that fits your repayment capacity.''
      else js ''I don't have specific information about that in our product database. However, I can help you with details about the '' @
           name product @ [39] @ js ''s:\<newline>- Interest rate ('' @
           numToString pf (rate_apr product) @ js ''% APR)\<newline>- Eligibility criteria (credit score: '' @
           numToString pf (min_credit_score product) @ js '', income: '' @
           formatCurrencyINR pf (min_income product) @ js '')\<newline>- Tenure options ('' @
           numToString pf (tenure_min_months product) @ js ''-'' @
           numToString pf (tenure_max_months product) @ js '' months)\<newline>- Prepayment terms'' @
           (if truthy_str (disbursal_speed product) then js ''\<newline>- Disbursal timeline'' else []) @
           js ''\<newline>\<newline>What would you like to know about these aspects?'')\<close>

section \<open>The LLM transport: \<open>callLLMAPI\<close> (src/lib/ai.ts)\<close>

text \<open>
  The two credentials are environment variables (\<open>None\<close> when unset).  \<open>fetch\<close> is the
  network: a function from the request to a failure or a response; every call of it
  is recorded in the trace the model returns beside the result.  A response carries
  its \<open>ok\<close> flag, status, body text, and the body parsed as JSON (\<open>None\<close> when
  \<open>response.json()\<close> rejects).
\<close>

datatype json = JNull | JBool bool | JNum rat | JStr jsstring | JArr "json list"
  | JObj "(jsstring \<times> json) list"

record llm_env =
  OPENAI_API_KEY :: "jsstring option"
  GEMINI_API_KEY :: "jsstring option"

record http_request =
  url :: jsstring
  headers :: "(jsstring \<times> jsstring) list"
  json_body :: json

record http_response =
  ok :: bool
  status :: nat
  body_text :: jsstring
  body_json :: "json option"

datatype llm_error =
    NotConfigured jsstring
  | ApiError jsstring
  | UnexpectedShape jsstring
  | FetchRejected
  | JsonRejected

text \<open>Optional chaining: a property or an index of a value that may be \<open>undefined\<close>.\<close>

fun json_prop :: "jsstring \<Rightarrow> json option \<Rightarrow> json option" where
  "json_prop k (Some (JObj props)) = map_of props k"
| "json_prop k v = None"

fun json_first :: "json option \<Rightarrow> json option" where
  "json_first (Some (JArr (x # xs))) = Some x"
| "json_first (Some (JStr (c # cs))) = Some (JStr [c])"
| "json_first (Some (JObj props)) = map_of props (js ''0'')"
| "json_first v = None"

text \<open>\<open>!text || typeof text !== 'string'\<close> fails: a non-empty string.\<close>

fun nonempty_string :: "json option \<Rightarrow> jsstring option" where
  "nonempty_string (Some (JStr s)) = (if s = [] then None else Some s)"
| "nonempty_string v = None"

definition openai_request :: "jsstring \<Rightarrow> jsstring \<Rightarrow> http_request" where
  "openai_request openaiKey prompt =
     \<lparr>url = js ''https://api.openai.com/v1/chat/completions'',
      headers = [(js ''Content-Type'', js ''application/json''),
                 (js ''Authorization'', js ''Bearer '' @ openaiKey)],
      json_body = JObj [(js ''model'', JStr (js ''gpt-4o-mini'')),
                   (js ''messages'',
                      JArr [JObj [(js ''role'', JStr (js ''system'')),
                                  (js ''content'', JStr prompt)]]),
                   (js ''temperature'', JNum (2 / 5)),
                   (js ''max_tokens'', JNum 500)]\<rparr>"

definition gemini_request :: "jsstring \<Rightarrow> jsstring \<Rightarrow> http_request" where
  "gemini_request geminiKey prompt =
     \<lparr>url = js ''https://generativelanguage.googleapis.com/v1beta/models/gemini-1.5-flash:generateContent'',
      headers = [(js ''Content-Type'', js ''application/json''),
                 (js ''x-goog-api-key'', geminiKey)],
      json_body = JObj [(js ''contents'',
                      JArr [JObj [(js ''role'', JStr (js ''user'')),
                                  (js ''parts'', JArr [JObj [(js ''text'', JStr prompt)]])]]),
                   (js ''generationConfig'',
                      JObj [(js ''temperature'', JNum (2 / 5)),
                            (js ''maxOutputTokens'', JNum 500)])]\<rparr>"

definition not_configured_message :: jsstring where
  "not_configured_message = js ''LLM API not configured. Set OPENAI_API_KEY or GEMINI_API_KEY.''"

definition callLLMAPI ::
  "llm_env \<Rightarrow> (http_request \<Rightarrow> http_response option) \<Rightarrow> jsstring \<Rightarrow>
     (llm_error + jsstring) \<times> http_request list" where
  "callLLMAPI env fetch prompt =
     (let openaiKey = OPENAI_API_KEY env; geminiKey = GEMINI_API_KEY env in
      if \<not> truthy_str openaiKey \<and> \<not> truthy_str geminiKey
      then (Inl (NotConfigured not_configured_message), [])
      else if truthy_str openaiKey
      then (let request = openai_request (the openaiKey) prompt in
            case fetch request of
              None \<Rightarrow> (Inl FetchRejected, [request])
            | Some response \<Rightarrow>
                if \<not> ok response
                then (Inl (ApiError (js ''OpenAI API error: '' @ show_nat (status response) @
                             js '' '' @ body_text response)), [request])
                else (case body_json response of
                        None \<Rightarrow> (Inl JsonRejected, [request])
                      | Some data \<Rightarrow>
                          (case nonempty_string
                                  (json_prop (js ''content'') (json_prop (js ''message'')
                                     (json_first (json_prop (js ''choices'') (Some data))))) of
                             None \<Rightarrow> (Inl (UnexpectedShape
                                        (js ''OpenAI API returned an unexpected response shape.'')),
                                      [request])
                           | Some messageContent \<Rightarrow> (Inr messageContent, [request]))))
      else (let request = gemini_request (the geminiKey) prompt in
            case fetch request of
              None \<Rightarrow> (Inl FetchRejected, [request])
            | Some response \<Rightarrow>
                if \<not> ok response
                then (Inl (ApiError (js ''Gemini API error: '' @ show_nat (status response) @
                             js '' '' @ body_text response)), [request])
                else (case body_json response of
                        None \<Rightarrow> (Inl JsonRejected, [request])
                      | Some data \<Rightarrow>
                          (case nonempty_string
                                  (json_prop (js ''text'') (json_first (json_prop (js ''parts'')
                                     (json_prop (js ''content'')
                                        (json_first (json_prop (js ''candidates'') (Some data))))))) of
                             None \<Rightarrow> (Inl (UnexpectedShape
                                        (js ''Gemini API returned an unexpected response shape.'')),
                                      [request])
                           | Some text \<Rightarrow> (Inr text, [request])))))"

section \<open>The request handler: \<open>POST /api/ai/ask\<close> (src/app/api/ai/ask/route.ts)\<close>

record AIAskRequest =
  productId :: jsstring
  message :: jsstring
  history :: "Turn list option"

text \<open>
  The body of the request: not JSON at all (\<open>request.json()\<close> rejects), JSON of another
  shape than the schema's object, for which the validation library reports the issues
  carried here, or an object with the schema's fields and types, whose values the
  schema still has to check.
\<close>

datatype request_body = NotJson | WrongShape "jsstring list" | Shaped AIAskRequest

text \<open>
  \<open>AIAskSchema.parse\<close> (src/lib/validators/schemas.ts): the product id is a UUID, the
  message has 1 to 500 code units.  What counts as a UUID is decided by the
  validation library and is a parameter.  The result is the list of issue messages or
  the validated request.
\<close>

definition AIAskSchema_parse ::
  "(jsstring \<Rightarrow> bool) \<Rightarrow> request_body \<Rightarrow> jsstring list + AIAskRequest" where
  "AIAskSchema_parse is_uuid body =
     (case body of
        Shaped r \<Rightarrow>
          (let issues =
                 (if is_uuid (productId r) then [] else [js ''Invalid product ID'']) @
                 (if length (message r) < 1 then [js ''Message cannot be empty'']
                  else if length (message r) > 500
                  then [js ''Message too long (max 500 characters)''] else [])
           in if issues = [] then Inr r else Inl issues)
      | WrongShape issues \<Rightarrow> Inl issues
      | NotJson \<Rightarrow> Inl [])"

record ChatMessage =
  product_id :: jsstring
  user_id :: jsstring
  msg_role :: ChatRole
  msg_content :: jsstring
  created_at :: nat

text \<open>
  The collaborators of the handler: the validation library's UUID test;
  \<open>getServerSession\<close>, reduced to the user id \<open>session?.user?.id\<close> of the session it
  resolves to (\<open>None\<close> when it rejects, \<open>Some None\<close> when the id is \<open>undefined\<close>); the two
  database functions over a database state \<open>'db\<close> (a rejected promise is \<open>None\<close>); and
  the clock: \<open>date_now k\<close> is what the \<open>k\<close>-th \<open>new Date()\<close> of the request returns.
\<close>

record 'db handler_env =
  is_uuid :: "jsstring \<Rightarrow> bool"
  session_user_id :: "jsstring option option"
  getProductById :: "jsstring \<Rightarrow> 'db \<Rightarrow> Product option option"
  saveChatMessage :: "ChatMessage \<Rightarrow> 'db \<Rightarrow> 'db option"
  date_now :: "nat \<Rightarrow> nat"

datatype event =
    GetProduct jsstring
  | Save ChatMessage
  | ConsoleError jsstring
  | Fetch http_request

record reply =
  http_status :: nat
  success :: bool
  reply_message :: "jsstring option"
  error :: "jsstring option"
  details :: "jsstring list option"

definition safe_fallback :: jsstring where
  \<open>safe_fallback = js ''I apologize, but I couldn't generate a reliable answer. Please rephrase your question or ask about specific product details like interest rate, eligibility criteria, or tenure options.''\<close>

definition ok_reply :: "jsstring \<Rightarrow> reply" where
  "ok_reply text = \<lparr>http_status = 200, success = True, reply_message = Some text,
                     error = None, details = None\<rparr>"

definition error_reply :: "nat \<Rightarrow> jsstring \<Rightarrow> jsstring list option \<Rightarrow> reply" where
  "error_reply code text ds = \<lparr>http_status = code, success = False, reply_message = None,
                                error = Some text, details = ds\<rparr>"

definition POST ::
  "platform \<Rightarrow> 'db handler_env \<Rightarrow> 'db \<Rightarrow> request_body \<Rightarrow> reply \<times> 'db \<times> event list" where
  "POST pf env db body =
     (case body of
        NotJson \<Rightarrow>
          (error_reply 500 (js ''Failed to process AI request'') None, db,
           [ConsoleError (js ''Error in POST /api/ai/ask:'')])
      | _ \<Rightarrow>
        (case AIAskSchema_parse (is_uuid env) body of
           Inl issues \<Rightarrow>
             (error_reply 400 (js ''Invalid request format'') (Some issues), db,
              [ConsoleError (js ''Error in POST /api/ai/ask:'')])
         | Inr validatedData \<Rightarrow>
             (let productId = productId validatedData; message = message validatedData in
              case session_user_id env of
                None \<Rightarrow>
                  (error_reply 500 (js ''Failed to process AI request'') None, db,
                   [ConsoleError (js ''Error in POST /api/ai/ask:'')])
              | Some userId \<Rightarrow>
              if \<not> truthy_str userId
              then (error_reply 401 (js ''Unauthorized'') None, db, [])
              else
                (case getProductById env productId db of
                   None \<Rightarrow>
                     (error_reply 500 (js ''Failed to process AI request'') None, db,
                      [GetProduct productId, ConsoleError (js ''Error in POST /api/ai/ask:'')])
                 | Some None \<Rightarrow>
                     (error_reply 404 (js ''Product not found'') None, db, [GetProduct productId])
                 | Some (Some product) \<Rightarrow>
                     (let aiResponse = simulateAIResponse pf product message;
                          validation = validateAIResponse aiResponse in
                      if \<not> valid validation
                      then (ok_reply safe_fallback, db,
                            [GetProduct productId,
                             ConsoleError (js ''AI response validation failed:'')])
                      else
                        (let userTurn = \<lparr>product_id = productId, user_id = the userId,
                                          msg_role = User, msg_content = message,
                                          created_at = date_now env 0\<rparr>;
                             assistantTurn = \<lparr>product_id = productId, user_id = the userId,
                                               msg_role = Assistant, msg_content = aiResponse,
                                               created_at = date_now env 1\<rparr> in
                         case saveChatMessage env userTurn db of
                           None \<Rightarrow>
                             (ok_reply aiResponse, db,
                              [GetProduct productId, Save userTurn,
                               ConsoleError (js ''Failed to save chat messages:'')])
                         | Some db1 \<Rightarrow>
                             (case saveChatMessage env assistantTurn db1 of
                                None \<Rightarrow>
                                  (ok_reply aiResponse, db1,
                                   [GetProduct productId, Save userTurn, Save assistantTurn,
                                    ConsoleError (js ''Failed to save chat messages:'')])
                              | Some db2 \<Rightarrow>
                                  (ok_reply aiResponse, db2,
                                   [GetProduct productId, Save userTurn,
                                    Save assistantTurn]))))))))"

definition is_fetch :: "event \<Rightarrow> bool" where
  "is_fetch e = (case e of Fetch request \<Rightarrow> True | _ \<Rightarrow> False)"

definition sample_env :: "ChatMessage list handler_env" where
  "sample_env =
     \<lparr>is_uuid = (\<lambda>s. length s = 36),
      session_user_id = Some (Some (js ''user-1'')),
      getProductById = (\<lambda>i db. Some (Some sample_product)),
      saveChatMessage = (\<lambda>m db. Some (db @ [m])),
      date_now = (\<lambda>k. 1000 + k)\<rparr>"

definition sample_request :: AIAskRequest where
  "sample_request =
     \<lparr>productId = js ''123e4567-e89b-12d3-a456-426614174000'',
      message = js ''Tell me about tenure'', history = None\<rparr>"

definition approval_product :: Product where
  "approval_product = sample_product\<lparr>name := js ''Instant Approval Loan''\<rparr>"

subsection \<open>Requests that are answered with a chat reply\<close>

text \<open>
  The request reaches the generation of a reply: the body validates, the session
  carries a user id, and the product is found.
\<close>

definition reaches_reply ::
  "'db handler_env \<Rightarrow> 'db \<Rightarrow> request_body \<Rightarrow> AIAskRequest \<Rightarrow> Product \<Rightarrow> bool" where
  "reaches_reply env db body r product \<longleftrightarrow>
     body = Shaped r \<and> AIAskSchema_parse (is_uuid env) body = Inr r \<and>
     (case session_user_id env of Some userId \<Rightarrow> truthy_str userId | None \<Rightarrow> False) \<and>
     getProductById env (productId r) db = Some (Some product)"

section \<open>Properties of the response gate\<close>

lemma canonicalize_word:
  "canonicalize x = canonicalize c \<Longrightarrow> is_word_char x = is_word_char c"
  by (auto simp: canonicalize_def is_word_char_def split: if_splits)

lemma rx_match_chars:
  "rx_match_here (map Chr ph @ r) prev s \<longleftrightarrow>
     (\<exists>w s'. s = w @ s' \<and> map canonicalize w = map canonicalize ph \<and>
        rx_match_here r (if w = [] then prev else Some (last w)) s')"
proof (induction ph arbitrary: prev s)
  case Nil
  then show ?case by simp
next
  case (Cons c cs)
  show ?case
  proof (cases s)
    case Nil
    then show ?thesis by simp
  next
    case (Cons x xs)
    have "rx_match_here (map Chr (c # cs) @ r) prev s \<longleftrightarrow>
            canonicalize x = canonicalize c \<and> rx_match_here (map Chr cs @ r) (Some x) xs"
      using Cons by simp
    also have "\<dots> \<longleftrightarrow> canonicalize x = canonicalize c \<and>
        (\<exists>w' s'. xs = w' @ s' \<and> map canonicalize w' = map canonicalize cs \<and>
           rx_match_here r (if w' = [] then Some x else Some (last w')) s')"
      using Cons.IH by simp
    also have "\<dots> \<longleftrightarrow> (\<exists>w s'. s = w @ s' \<and> map canonicalize w = map canonicalize (c # cs) \<and>
        rx_match_here r (if w = [] then prev else Some (last w)) s')"
      (is "?L \<longleftrightarrow> ?R")
    proof
      assume ?L
      then obtain w' s' where h: "canonicalize x = canonicalize c" "xs = w' @ s'"
        "map canonicalize w' = map canonicalize cs"
        "rx_match_here r (if w' = [] then Some x else Some (last w')) s'"
        by blast
      have "s = (x # w') @ s'" using Cons h by simp
      moreover have "map canonicalize (x # w') = map canonicalize (c # cs)" using h by simp
      moreover have "rx_match_here r (if x # w' = [] then prev else Some (last (x # w'))) s'"
        using h by (auto split: if_splits)
      ultimately show ?R by blast
    next
      assume ?R
      then obtain w s' where h: "s = w @ s'" "map canonicalize w = map canonicalize (c # cs)"
        "rx_match_here r (if w = [] then prev else Some (last w)) s'"
        by blast
      from h(2) obtain y w' where w: "w = y # w'" by (cases w) simp_all
      from h(1) w Cons have yx: "y = x" and xs: "xs = w' @ s'" by simp_all
      from h(2) w yx have c1: "canonicalize x = canonicalize c"
        and c2: "map canonicalize w' = map canonicalize cs" by simp_all
      from h(3) w yx have "rx_match_here r (if w' = [] then Some x else Some (last w')) s'"
        by (simp split: if_splits)
      with xs c2 have "\<exists>w' s'. xs = w' @ s' \<and> map canonicalize w' = map canonicalize cs \<and>
           rx_match_here r (if w' = [] then Some x else Some (last w')) s'"
        by blast
      with c1 show ?L by simp
    qed
    finally show ?thesis .
  qed
qed

lemma rx_search_split:
  "rx_search p prev s \<longleftrightarrow>
     (\<exists>pre post. s = pre @ post \<and>
        rx_match_here p (if pre = [] then prev else Some (last pre)) post)"
proof (induction s arbitrary: prev)
  case Nil
  then show ?case by simp
next
  case (Cons x xs)
  show ?case (is "?L \<longleftrightarrow> ?R")
  proof
    assume ?L
    then consider "rx_match_here p prev (x # xs)" | "rx_search p (Some x) xs" by auto
    then show ?R
    proof cases
      case 1
      then have "x # xs = [] @ (x # xs) \<and>
        rx_match_here p (if ([]::jsstring) = [] then prev else Some (last [])) (x # xs)"
        by simp
      then show ?thesis by blast
    next
      case 2
      then obtain pre post where h: "xs = pre @ post"
        "rx_match_here p (if pre = [] then Some x else Some (last pre)) post"
        using Cons.IH by blast
      then have "x # xs = (x # pre) @ post \<and>
        rx_match_here p (if x # pre = [] then prev else Some (last (x # pre))) post"
        by (auto split: if_splits)
      then show ?thesis by blast
    qed
  next
    assume ?R
    then obtain pre post where h: "x # xs = pre @ post"
      "rx_match_here p (if pre = [] then prev else Some (last pre)) post"
      by blast
    show ?L
    proof (cases pre)
      case Nil
      with h have "post = x # xs" by simp
      with h Nil show ?thesis by simp
    next
      case (Cons y pre')
      with h have "xs = pre' @ post"
        "rx_match_here p (if pre' = [] then Some x else Some (last pre')) post"
        by (simp_all split: if_splits)
      then have "rx_search p (Some x) xs" using Cons.IH by blast
      then show ?thesis by simp
    qed
  qed
qed

lemma rx_phrase_test:
  assumes ne: "ph \<noteq> []" and hw: "is_word_char (hd ph)" and lw: "is_word_char (last ph)"
  shows "rx_test (rx_phrase ph) t \<longleftrightarrow> phrase_at_word_boundaries ph t"
proof
  assume "rx_test (rx_phrase ph) t"
  then obtain pre post where h: "t = pre @ post"
    "rx_match_here (rx_phrase ph) (if pre = [] then None else Some (last pre)) post"
    unfolding rx_test_def rx_search_split by blast
  let ?prev = "if pre = [] then None else Some (last pre)"
  from h(2) have b1: "at_word_boundary ?prev post"
    and m: "rx_match_here (map Chr ph @ [WordBoundary]) ?prev post"
    by (simp_all add: rx_phrase_def)
  from m obtain w s' where w: "post = w @ s'" "map canonicalize w = map canonicalize ph"
    "rx_match_here [WordBoundary] (if w = [] then ?prev else Some (last w)) s'"
    unfolding rx_match_chars by blast
  from w(2) ne have wne: "w \<noteq> []" by auto
  have "canonicalize (hd w) = canonicalize (hd ph)"
    using w(2) wne ne by (metis hd_map)
  then have hdw: "is_word_char (hd w)" using hw canonicalize_word by blast
  have "canonicalize (last w) = canonicalize (last ph)"
    using w(2) wne ne by (metis last_map)
  then have lastw: "is_word_char (last w)" using lw canonicalize_word by blast
  have "next_char post = Some (hd w)" using w(1) wne by (cases w) auto
  with b1 hdw have p1: "pre = [] \<or> \<not> is_word_char (last pre)"
    by (auto simp: at_word_boundary_def split: if_splits)
  from w(3) wne lastw have p2: "s' = [] \<or> \<not> is_word_char (hd s')"
    by (cases s') (auto simp: at_word_boundary_def)
  from h(1) w(1) have "t = pre @ w @ s'" by simp
  with w(2) p1 p2 show "phrase_at_word_boundaries ph t"
    unfolding phrase_at_word_boundaries_def by blast
next
  assume "phrase_at_word_boundaries ph t"
  then obtain pre w post where h: "t = pre @ w @ post"
    "map canonicalize w = map canonicalize ph"
    "pre = [] \<or> \<not> is_word_char (last pre)" "post = [] \<or> \<not> is_word_char (hd post)"
    unfolding phrase_at_word_boundaries_def by blast
  let ?prev = "if pre = [] then None else Some (last pre)"
  from h(2) ne have wne: "w \<noteq> []" by auto
  have "canonicalize (hd w) = canonicalize (hd ph)"
    using h(2) wne ne by (metis hd_map)
  then have hdw: "is_word_char (hd w)" using hw canonicalize_word by blast
  have "canonicalize (last w) = canonicalize (last ph)"
    using h(2) wne ne by (metis last_map)
  then have lastw: "is_word_char (last w)" using lw canonicalize_word by blast
  have "next_char (w @ post) = Some (hd w)" using wne by (cases w) auto
  with h(3) hdw have b1: "at_word_boundary ?prev (w @ post)"
    by (auto simp: at_word_boundary_def)
  from h(4) lastw have b2: "rx_match_here [WordBoundary] (Some (last w)) post"
    by (cases post) (auto simp: at_word_boundary_def)
  have "rx_match_here (map Chr ph @ [WordBoundary]) ?prev (w @ post)"
    unfolding rx_match_chars using h(2) b2 wne by auto
  with b1 have "rx_match_here (rx_phrase ph) ?prev (w @ post)"
    by (simp add: rx_phrase_def)
  with h(1) show "rx_test (rx_phrase ph) t"
    unfolding rx_test_def rx_search_split by blast
qed

lemma validate_loop_phrases:
  assumes "\<forall>ph \<in> set phs. ph \<noteq> [] \<and> is_word_char (hd ph) \<and> is_word_char (last ph)"
  shows "validate_loop (map rx_phrase phs) t =
     (if \<exists>ph \<in> set phs. phrase_at_word_boundaries ph t
      then \<lparr>valid = False, reason = Some suspicious_reason\<rparr>
      else \<lparr>valid = True, reason = None\<rparr>)"
  using assms by (induction phs) (simp_all add: rx_phrase_test)

lemma denylist_shape:
  "\<forall>ph \<in> set denylist. ph \<noteq> [] \<and> is_word_char (hd ph) \<and> is_word_char (last ph)"
  by (simp add: denylist_def js_def is_word_char_def)

lemma boundary_occurrence_is_substring:
  "phrase_at_word_boundaries ph t \<Longrightarrow> ci_substring ph t"
proof -
  assume "phrase_at_word_boundaries ph t"
  then obtain pre w post where "t = pre @ w @ post"
    "map canonicalize w = map canonicalize ph"
    unfolding phrase_at_word_boundaries_def by blast
  then have "map canonicalize t =
    map canonicalize pre @ map canonicalize ph @ map canonicalize post"
    by simp
  then show ?thesis unfolding ci_substring_def sublist_def by blast
qed

lemmas gate_eval =
  validateAIResponse_def suspiciousPatterns_def denylist_def rx_phrase_def rx_test_def
  at_word_boundary_def is_word_char_def canonicalize_def js_def

text \<open>
  Claim C1, as stated: the gate answers invalid exactly when the text contains one of
  the four phrases as a case-insensitive substring.  This fails: a reply in which
  the phrase is part of a longer word (here the plural ``approvals'') contains the
  phrase and is judged valid.
\<close>

theorem gate_substring_counterexample:
  "valid (validateAIResponse (js ''Guaranteed approvals are rare.'')) \<and>
   reason (validateAIResponse (js ''Guaranteed approvals are rare.'')) = None \<and>
   ci_substring (js ''guaranteed approval'') (js ''Guaranteed approvals are rare.'')"
proof -
  have "validateAIResponse (js ''Guaranteed approvals are rare.'') =
          \<lparr>valid = True, reason = None\<rparr>"
    by (simp add: gate_eval)
  moreover have "ci_substring (js ''guaranteed approval'') (js ''Guaranteed approvals are rare.'')"
    by (simp add: ci_substring_def js_def canonicalize_def sublist_code)
  ultimately show ?thesis by simp
qed

text \<open>
  Claim C1, amended: the gate answers invalid, with the fixed reason, exactly when one
  of the four phrases occurs ignoring ASCII letter case and the occurrence is
  delimited by word boundaries (not adjoined by a letter, digit or underscore);
  otherwise it answers valid with no reason.  In particular every text that does not
  contain any of the phrases as a case-insensitive substring is valid.
\<close>

theorem gate_invalid_iff_phrase_at_word_boundaries:
  "validateAIResponse t =
     (if \<exists>ph \<in> set denylist. phrase_at_word_boundaries ph t
      then \<lparr>valid = False, reason = Some suspicious_reason\<rparr>
      else \<lparr>valid = True, reason = None\<rparr>) \<and>
   ((\<forall>ph \<in> set denylist. \<not> ci_substring ph t) \<longrightarrow>
     validateAIResponse t = \<lparr>valid = True, reason = None\<rparr>)"
proof -
  have eq: "validateAIResponse t =
     (if \<exists>ph \<in> set denylist. phrase_at_word_boundaries ph t
      then \<lparr>valid = False, reason = Some suspicious_reason\<rparr>
      else \<lparr>valid = True, reason = None\<rparr>)"
    unfolding validateAIResponse_def suspiciousPatterns_def
    by (rule validate_loop_phrases [OF denylist_shape])
  have "\<not> (\<exists>ph \<in> set denylist. phrase_at_word_boundaries ph t)"
    if "\<forall>ph \<in> set denylist. \<not> ci_substring ph t"
    using that boundary_occurrence_is_substring by blast
  with eq show ?thesis by simp
qed

theorem gate_invalid_iff_phrase_at_word_boundaries_witness:
  "validateAIResponse (js ''This loan has INSTANT APPROVAL!'') =
      \<lparr>valid = False, reason = Some suspicious_reason\<rparr> \<and>
   (\<exists>ph \<in> set denylist. phrase_at_word_boundaries ph (js ''This loan has INSTANT APPROVAL!'')) \<and>
   \<not> (\<exists>ph \<in> set denylist. ci_substring ph (js ''The rate is 8.9%.'')) \<and>
   validateAIResponse (js ''The rate is 8.9%.'') = \<lparr>valid = True, reason = None\<rparr>"
proof -
  have a: "validateAIResponse (js ''This loan has INSTANT APPROVAL!'') =
      \<lparr>valid = False, reason = Some suspicious_reason\<rparr>"
    by (simp add: gate_eval)
  have b: "\<exists>ph \<in> set denylist. phrase_at_word_boundaries ph (js ''This loan has INSTANT APPROVAL!'')"
    using a gate_invalid_iff_phrase_at_word_boundaries [of "js ''This loan has INSTANT APPROVAL!''"]
    by (simp split: if_splits)
  have c: "\<forall>ph \<in> set denylist. \<not> ci_substring ph (js ''The rate is 8.9%.'')"
    by (simp add: denylist_def ci_substring_def js_def canonicalize_def sublist_code)
  from c gate_invalid_iff_phrase_at_word_boundaries [of "js ''The rate is 8.9%.''"]
  have d: "validateAIResponse (js ''The rate is 8.9%.'') = \<lparr>valid = True, reason = None\<rparr>"
    by blast
  from c have e: "\<not> (\<exists>ph \<in> set denylist. ci_substring ph (js ''The rate is 8.9%.''))"
    by blast
  from a b d e show ?thesis by blast
qed

section \<open>Lines of a string under \<open>trim\<close>\<close>

text \<open>
  Taking the lines of a string commutes with \<open>trimEnd\<close>: the lines of the trimmed string
  are the lines of the string without the trailing blank ones, the last one kept
  trimmed.  Counting the lines that have a stable property is therefore not affected by
  \<open>trim\<close>.
\<close>

lemma js_lines_ne [simp]: "js_lines s \<noteq> []"
  by (induction s) (auto split: list.splits)

lemma js_lines_append_nl: "js_lines (a @ 10 # b) = js_lines a @ js_lines b"
  by (induction a) (auto split: list.splits)

lemma js_lines_single: "single_line a \<Longrightarrow> js_lines a = [a]"
  by (induction a) (auto simp: single_line_def split: list.splits)

lemma js_lines_snoc:
  "js_lines (xs @ [c]) =
     (if c = 10 then js_lines xs @ [[]]
      else butlast (js_lines xs) @ [last (js_lines xs) @ [c]])"
proof (induction xs)
  case Nil
  then show ?case by simp
next
  case (Cons x xs)
  obtain l ls where L: "js_lines xs = l # ls" by (cases "js_lines xs") simp_all
  obtain l' ls' where L': "js_lines (xs @ [c]) = l' # ls'"
    by (cases "js_lines (xs @ [c])") simp_all
  show ?case
  proof (cases "c = 10")
    case True
    with Cons L show ?thesis by simp
  next
    case False
    with Cons L show ?thesis by (cases ls) (simp_all)
  qed
qed

lemma js_trimEnd_snoc:
  "js_trimEnd (xs @ [c]) = (if is_js_whitespace c then js_trimEnd xs else xs @ [c])"
  by (simp add: js_trimEnd_def)

lemma js_trimEnd_Nil [simp]: "js_trimEnd [] = []"
  by (simp add: js_trimEnd_def)

lemma drop_trailing_blank_snoc:
  "drop_trailing_blank (ls @ [l]) = (if blank l then drop_trailing_blank ls else ls @ [l])"
  by (simp add: drop_trailing_blank_def)

lemma drop_trailing_blank_Nil [simp]: "drop_trailing_blank [] = []"
  by (simp add: drop_trailing_blank_def)

lemma blank_snoc [simp]: "blank (l @ [c]) \<longleftrightarrow> blank l \<and> is_js_whitespace c"
  by (auto simp: blank_def)

lemma blank_Nil [simp]: "blank []"
  by (simp add: blank_def)

lemma newline_is_whitespace [simp]: "is_js_whitespace 10"
  by (simp add: is_js_whitespace_def)

lemma trim_lines_snoc_nonblank:
  "\<not> blank l \<Longrightarrow> trim_lines (ls @ [l]) = ls @ [js_trimEnd l]"
  by (simp add: trim_lines_def drop_trailing_blank_snoc)

lemma trim_lines_snoc_blank:
  "blank l \<Longrightarrow> trim_lines (ls @ [l]) = trim_lines ls"
  by (simp add: trim_lines_def drop_trailing_blank_snoc)

lemma js_lines_trimEnd: "js_lines (js_trimEnd s) = trim_lines (js_lines s)"
proof (induction s rule: rev_induct)
  case Nil
  have "trim_lines ([] @ [[]]) = trim_lines []" by (rule trim_lines_snoc_blank) simp
  then show ?case by (simp add: trim_lines_def)
next
  case (snoc c xs)
  obtain B e where L: "js_lines xs = B @ [e]"
    using js_lines_ne [of xs] by (metis append_butlast_last_id)
  show ?case
  proof (cases "is_js_whitespace c")
    case ws: True
    show ?thesis
    proof (cases "c = 10")
      case True
      then show ?thesis
        using snoc ws by (simp add: js_trimEnd_snoc js_lines_snoc trim_lines_snoc_blank)
    next
      case False
      have lines: "js_lines (xs @ [c]) = B @ [e @ [c]]"
        using False L by (simp add: js_lines_snoc)
      have "trim_lines (B @ [e @ [c]]) = trim_lines (B @ [e])"
      proof (cases "blank e")
        case True
        then show ?thesis using ws by (simp add: trim_lines_snoc_blank)
      next
        case False
        then show ?thesis using ws by (simp add: trim_lines_snoc_nonblank js_trimEnd_snoc)
      qed
      then show ?thesis
        using snoc ws lines L by (simp add: js_trimEnd_snoc)
    qed
  next
    case nws: False
    then have c10: "c \<noteq> 10" by auto
    have lines: "js_lines (xs @ [c]) = B @ [e @ [c]]"
      using c10 L by (simp add: js_lines_snoc)
    have "trim_lines (B @ [e @ [c]]) = B @ [e @ [c]]"
      using nws by (simp add: trim_lines_snoc_nonblank js_trimEnd_snoc)
    then show ?thesis
      using nws lines by (simp add: js_trimEnd_snoc)
  qed
qed

lemma trim_lines_Nil: "trim_lines [] = [[]]"
  by (simp add: trim_lines_def)

lemma trim_lines_append_blanks:
  "list_all blank B \<Longrightarrow> trim_lines (A @ B) = trim_lines A"
proof (induction B rule: rev_induct)
  case Nil
  then show ?case by simp
next
  case (snoc l B)
  then have "trim_lines ((A @ B) @ [l]) = trim_lines (A @ B)"
    by (intro trim_lines_snoc_blank) simp
  with snoc show ?case by simp
qed

lemma trim_lines_keep_prefix:
  assumes "\<exists>l \<in> set B. \<not> blank l"
  shows "trim_lines (A @ B) = A @ trim_lines B"
  using assms
proof (induction B rule: rev_induct)
  case Nil
  then show ?case by simp
next
  case (snoc l B)
  show ?case
  proof (cases "blank l")
    case True
    with snoc.prems have "\<exists>l \<in> set B. \<not> blank l" by auto
    then have "trim_lines (A @ B) = A @ trim_lines B" by (rule snoc.IH)
    moreover have "trim_lines ((A @ B) @ [l]) = trim_lines (A @ B)"
      using True by (rule trim_lines_snoc_blank)
    moreover have "trim_lines (B @ [l]) = trim_lines B"
      using True by (rule trim_lines_snoc_blank)
    ultimately show ?thesis by simp
  next
    case False
    have "trim_lines ((A @ B) @ [l]) = (A @ B) @ [js_trimEnd l]"
      using False by (rule trim_lines_snoc_nonblank)
    moreover have "trim_lines (B @ [l]) = B @ [js_trimEnd l]"
      using False by (rule trim_lines_snoc_nonblank)
    ultimately show ?thesis by simp
  qed
qed

lemma trim_lines_count:
  assumes "trim_stable P"
  shows "length (filter P (trim_lines ls)) = length (filter P ls)"
proof (induction ls rule: rev_induct)
  case Nil
  have "\<not> P []" using assms unfolding trim_stable_def by (metis blank_Nil)
  then show ?case by (simp add: trim_lines_Nil)
next
  case (snoc l ls)
  show ?case
  proof (cases "blank l")
    case True
    then have "\<not> P l" using assms unfolding trim_stable_def by blast
    with snoc True show ?thesis by (simp add: trim_lines_snoc_blank)
  next
    case False
    have "P (js_trimEnd l) = P l" using assms unfolding trim_stable_def by blast
    with False show ?thesis by (simp add: trim_lines_snoc_nonblank)
  qed
qed

lemma trim_lines_filter_last:
  assumes "trim_stable P" "P x" "list_all blank B"
  shows "filter P (trim_lines (A @ [x] @ B)) = filter P A @ [js_trimEnd x]"
proof -
  have nb: "\<not> blank x" using assms(1,2) unfolding trim_stable_def by blast
  have "trim_lines ((A @ [x]) @ B) = trim_lines (A @ [x])"
    using assms(3) by (rule trim_lines_append_blanks)
  also have "\<dots> = A @ [js_trimEnd x]" using nb by (rule trim_lines_snoc_nonblank)
  finally have "trim_lines (A @ [x] @ B) = A @ [js_trimEnd x]" by simp
  moreover have "P (js_trimEnd x)" using assms(1,2) unfolding trim_stable_def by blast
  ultimately show ?thesis by simp
qed

lemma js_trimEnd_append_nonws:
  assumes "u \<noteq> []" "\<not> is_js_whitespace (last u)"
  shows "js_trimEnd (u @ v) = u @ js_trimEnd v"
proof (induction v rule: rev_induct)
  case Nil
  have "js_trimEnd (butlast u @ [last u]) = butlast u @ [last u]"
    using assms(2) by (simp only: js_trimEnd_snoc if_False)
  with assms(1) show ?case by simp
next
  case (snoc c v)
  have "js_trimEnd ((u @ v) @ [c]) = (if is_js_whitespace c then js_trimEnd (u @ v) else (u @ v) @ [c])"
    by (rule js_trimEnd_snoc)
  with snoc show ?case by (simp add: js_trimEnd_snoc)
qed

lemma js_trimEnd_prefix: "prefix (js_trimEnd l) l"
proof (induction l rule: rev_induct)
  case Nil
  then show ?case by simp
next
  case (snoc c l)
  then have "prefix (js_trimEnd l) (l @ [c])" by (rule prefix_prefix)
  then show ?case by (simp add: js_trimEnd_snoc)
qed

lemma blank_trimEnd: "blank l \<Longrightarrow> js_trimEnd l = []"
  by (induction l rule: rev_induct) (simp_all add: js_trimEnd_snoc)

lemma trim_stable_prefix:
  assumes "L \<noteq> []" "\<not> is_js_whitespace (last L)"
  shows "trim_stable (prefix L)"
  unfolding trim_stable_def
proof (intro conjI allI impI)
  fix l assume b: "blank l"
  show "\<not> prefix L l"
  proof
    assume "prefix L l"
    then have "set L \<subseteq> set l" by (auto simp: prefix_def)
    then have "last L \<in> set l" using assms(1) by auto
    with b have "is_js_whitespace (last L)" by (auto simp: blank_def list_all_iff)
    with assms(2) show False by simp
  qed
next
  fix l
  show "prefix L (js_trimEnd l) = prefix L l"
  proof
    assume "prefix L (js_trimEnd l)"
    then show "prefix L l" using js_trimEnd_prefix prefix_order.trans by blast
  next
    assume "prefix L l"
    then obtain r where "l = L @ r" by (auto simp: prefix_def)
    then have "js_trimEnd l = L @ js_trimEnd r"
      using js_trimEnd_append_nonws [OF assms] by simp
    then show "prefix L (js_trimEnd l)" by simp
  qed
qed

section \<open>The prompt as the sequence of its parts\<close>

lemma context_parts:
  "productContext pf p =
     js_trim (10 # listing pf p @ [10, 10] @
       (if faqBlock p = [] then [] else 10 # faqBlock p) @ [10])"
proof -
  have f: "(case faq p of
        Some faqs \<Rightarrow> if length faqs > 0
                     then js ''\<newline>FREQUENTLY ASKED QUESTIONS:\<newline>'' @
                          concat (map faqEntry (enumerate 0 faqs))
                     else []
      | None \<Rightarrow> []) = (if faqBlock p = [] then [] else 10 # faqBlock p)"
    by (simp add: faqBlock_def js_def split: option.splits)
  show ?thesis
    unfolding productContext_def f
    by (simp add: listing_def required_lines_def optional_lines_def fee_line_def
        prepayment_line_def speed_line_def docs_line_def summary_line_def js_def)
qed

lemma history_parts:
  "historyContext h = (if transcript h = [] then [] else 10 # transcript h @ [10])"
  by (simp add: historyContext_def transcript_def js_def)

lemma prompt_parts:
  "buildGroundedPrompt pf p m h =
     systemInstruction pf p @ [10, 10] @ productContext pf p @ [10, 10] @
     historyContext h @ [10, 10] @ questionLine m @ [10, 10] @ closingDirective"
  by (simp add: buildGroundedPrompt_def systemInstruction_def questionLine_def
      closingDirective_def js_def)

lemma in_order_step: "in_order parts post \<Longrightarrow> in_order (part # parts) (pre @ part @ post)"
  by auto

lemma js_trimEnd_blank_suffix: "blank w \<Longrightarrow> js_trimEnd (u @ w) = js_trimEnd u"
  by (induction w rule: rev_induct) (simp_all add: js_trimEnd_snoc flip: append_assoc)

lemma js_trimEnd_nonblank_suffix:
  assumes "\<not> blank v"
  shows "js_trimEnd (u @ v) = u @ js_trimEnd v"
  using assms
proof (induction v rule: rev_induct)
  case Nil
  then show ?case by simp
next
  case (snoc c v)
  show ?case
  proof (cases "is_js_whitespace c")
    case True
    with snoc.prems have "\<not> blank v" by simp
    then have "js_trimEnd (u @ v) = u @ js_trimEnd v" by (rule snoc.IH)
    moreover have "js_trimEnd ((u @ v) @ [c]) = js_trimEnd (u @ v)"
      using True by (simp only: js_trimEnd_snoc if_True)
    ultimately show ?thesis using True by (simp add: js_trimEnd_snoc)
  next
    case False
    have "js_trimEnd ((u @ v) @ [c]) = (u @ v) @ [c]"
      using False by (simp only: js_trimEnd_snoc if_False)
    with False show ?thesis by (simp add: js_trimEnd_snoc)
  qed
qed

lemma js_trimEnd_split: "\<exists>w. l = js_trimEnd l @ w \<and> blank w"
proof (induction l rule: rev_induct)
  case Nil
  then show ?case by simp
next
  case (snoc c l)
  then obtain w where w: "l = js_trimEnd l @ w" "blank w" by blast
  show ?case
  proof (cases "is_js_whitespace c")
    case True
    have t: "js_trimEnd (l @ [c]) = js_trimEnd l" using True by (simp add: js_trimEnd_snoc)
    have "l @ [c] = js_trimEnd l @ (w @ [c])" using w(1) by simp
    moreover have "blank (w @ [c])" using w(2) True by simp
    ultimately have "l @ [c] = js_trimEnd (l @ [c]) @ (w @ [c]) \<and> blank (w @ [c])"
      unfolding t by blast
    then show ?thesis by blast
  next
    case False
    have t: "js_trimEnd (l @ [c]) = l @ [c]" using False by (simp add: js_trimEnd_snoc)
    have "l @ [c] = js_trimEnd (l @ [c]) @ [] \<and> blank []" unfolding t by simp
    then show ?thesis by blast
  qed
qed

lemma listing_starts: "\<exists>r. listing pf p = 80 # r"
  by (simp add: listing_def required_lines_def optional_lines_def js_def)

lemma faqBlock_starts: "faqBlock p = [] \<or> (\<exists>r. faqBlock p = 70 # r)"
  by (simp add: faqBlock_def js_def split: option.splits)

lemma not_blank_Cons: "\<not> is_js_whitespace c \<Longrightarrow> \<not> blank (c # r)"
  by (simp add: blank_def)

lemma not_blank_append: "\<not> blank v \<Longrightarrow> \<not> blank (u @ v)"
  by (simp add: blank_def)

lemma context_as_parts:
  "\<exists>gap. productContext pf p = listingPart pf p @ gap @ faqPart p"
proof -
  obtain r where r: "listing pf p = 80 # r" using listing_starts by blast
  have P: "\<not> is_js_whitespace 80" by (simp add: is_js_whitespace_def)
  have F: "\<not> is_js_whitespace 70" by (simp add: is_js_whitespace_def)
  have start: "js_trimStart (10 # listing pf p @ rest) = listing pf p @ rest" for rest
    using r P by (simp add: js_trimStart_def)
  show ?thesis
  proof (cases "faqBlock p = []")
    case True
    have "productContext pf p = js_trimEnd (listing pf p @ [10, 10, 10])"
      using True by (simp add: context_parts js_trim_def start)
    also have "\<dots> = js_trimEnd (listing pf p)"
      by (rule js_trimEnd_blank_suffix) (simp add: blank_def)
    finally have "productContext pf p = listingPart pf p @ [] @ faqPart p"
      using True by (simp add: listingPart_def faqPart_def)
    then show ?thesis by blast
  next
    case False
    then obtain r' where r': "faqBlock p = 70 # r'" using faqBlock_starts by blast
    have nb: "\<not> blank (faqBlock p @ [10])"
      using r' F by (simp add: blank_def)
    obtain w where w: "listing pf p = js_trimEnd (listing pf p) @ w"
      using js_trimEnd_split by blast
    have "productContext pf p = js_trimEnd ((listing pf p @ [10, 10, 10]) @ (faqBlock p @ [10]))"
      using False by (simp add: context_parts js_trim_def start)
    also have "\<dots> = (listing pf p @ [10, 10, 10]) @ js_trimEnd (faqBlock p @ [10])"
      using nb by (rule js_trimEnd_nonblank_suffix)
    also have "js_trimEnd (faqBlock p @ [10]) = js_trimEnd (faqBlock p)"
      by (rule js_trimEnd_blank_suffix) (simp add: blank_def)
    finally have "productContext pf p = listing pf p @ [10, 10, 10] @ faqPart p"
      by (simp add: faqPart_def)
    then have "productContext pf p = listingPart pf p @ (w @ [10, 10, 10]) @ faqPart p"
      using w by (simp add: listingPart_def)
    then show ?thesis by blast
  qed
qed

lemma set_js_trim: "set (js_trim s) \<subseteq> set s"
proof -
  have "set (js_trim s) \<subseteq> set (js_trimStart s)"
    unfolding js_trim_def js_trimEnd_def using set_dropWhileD by fastforce
  also have "\<dots> \<subseteq> set s"
    unfolding js_trimStart_def using set_dropWhileD by fastforce
  finally show ?thesis .
qed

lemma instruction_only_at_start:
  assumes "91 \<notin> set (name p)" "91 \<notin> set (bank p)"
    and "91 \<notin> set (numToString pf (rate_apr p))"
    and "91 \<notin> set (productContext pf p)" "91 \<notin> set (historyContext h)" "91 \<notin> set m"
    and eq: "buildGroundedPrompt pf p m h = a @ systemInstruction pf p @ b"
  shows "a = []"
proof -
  define U where \<open>U = js ''You are a helpful loan advisor assistant. You are helping a customer understand the "'' @
     name p @ js ''" loan product from '' @ bank p @
     js ''.\<newline>\<newline>CRITICAL RULES:\<newline>1. Answer ONLY using the product information provided above\<newline>2. When referencing specific data, cite the field name (e.g., "The APR is '' @
     numToString pf (rate_apr p) @
     js ''% as stated in our product details")\<newline>3. If the user asks about information NOT in the product data, respond with: "I don't have that specific information in our product database. However, I can help you with ''\<close>
  define V where \<open>V = js ''list available topics] or connect you with our support team for detailed assistance."\<newline>4. Be conversational but accurate\<newline>5. If you're unsure, acknowledge it rather than guessing''\<close>
  define c where "c = [10, 10] @ productContext pf p @ [10, 10] @
     historyContext h @ [10, 10] @ questionLine m @ [10, 10] @ closingDirective"
  have I: "systemInstruction pf p = U @ 91 # V"
    by (simp add: systemInstruction_def U_def V_def js_def)
  have nU: "91 \<notin> set U" using assms(1-3) by (simp add: U_def js_def)
  have nV: "91 \<notin> set V" by (simp add: V_def js_def)
  have nc: "91 \<notin> set c"
    using assms(4-6) by (simp add: c_def questionLine_def closingDirective_def js_def)
  have "U @ 91 # (V @ c) = (a @ U) @ 91 # (V @ b)"
    using eq by (simp add: prompt_parts I c_def)
  moreover have "91 \<notin> set (V @ c)" using nV nc by simp
  ultimately have "U = a @ U"
    using nU append_Cons_eq_iff [of 91 U "V @ c" "a @ U" "V @ b"] by blast
  then show ?thesis by simp
qed

lemma listingPart_nonempty: "listingPart pf p \<noteq> []"
proof -
  obtain r where r: "listing pf p = [80] @ r" using listing_starts by fastforce
  have "js_trimEnd ([80] @ r) = [80] @ js_trimEnd r"
    by (rule js_trimEnd_append_nonws) (simp_all add: is_js_whitespace_def)
  then show ?thesis by (simp add: listingPart_def r)
qed

lemma claimed_order_needs_late_instruction:
  assumes "in_order [listingPart pf p, faqPart p, transcript h, systemInstruction pf p,
                     questionLine m, closingDirective] s"
  shows "\<exists>a b. a \<noteq> [] \<and> s = a @ systemInstruction pf p @ b"
proof -
  from assms have "\<exists>pre post. s = pre @ listingPart pf p @ post \<and>
      in_order [faqPart p, transcript h, systemInstruction pf p,
                questionLine m, closingDirective] post"
    by (simp only: in_order.simps)
  then obtain pre1 post1 where 1: "s = pre1 @ listingPart pf p @ post1"
    and r1: "in_order [faqPart p, transcript h, systemInstruction pf p,
                     questionLine m, closingDirective] post1" by blast
  from r1 have "\<exists>pre post. post1 = pre @ faqPart p @ post \<and>
      in_order [transcript h, systemInstruction pf p, questionLine m, closingDirective] post"
    by (simp only: in_order.simps)
  then obtain pre2 post2 where 2: "post1 = pre2 @ faqPart p @ post2"
    and r2: "in_order [transcript h, systemInstruction pf p,
                     questionLine m, closingDirective] post2" by blast
  from r2 have "\<exists>pre post. post2 = pre @ transcript h @ post \<and>
      in_order [systemInstruction pf p, questionLine m, closingDirective] post"
    by (simp only: in_order.simps)
  then obtain pre3 post3 where 3: "post2 = pre3 @ transcript h @ post3"
    and r3: "in_order [systemInstruction pf p, questionLine m, closingDirective] post3"
    by blast
  from r3 have "\<exists>pre post. post3 = pre @ systemInstruction pf p @ post \<and>
      in_order [questionLine m, closingDirective] post"
    by (simp only: in_order.simps)
  then obtain pre4 post4 where 4: "post3 = pre4 @ systemInstruction pf p @ post4" by blast
  let ?a = "pre1 @ listingPart pf p @ pre2 @ faqPart p @ pre3 @ transcript h @ pre4"
  show ?thesis
  proof (intro exI conjI)
    show "?a \<noteq> []" using listingPart_nonempty by simp
    show "s = ?a @ systemInstruction pf p @ post4" using 1 2 3 4 by simp
  qed
qed

subsection \<open>The sample inputs\<close>

lemma sample_numbers:
  "numToString sample_platform (Fin 9) = js ''9''"
  "numToString sample_platform (Fin 700) = js ''700''"
  "numToString sample_platform (Fin 12) = js ''12''"
  "numToString sample_platform (Fin 60) = js ''60''"
  "numToString sample_platform (Fin 1) = js ''1''"
  "numToString sample_platform (Fin 0) = js ''0''"
  "toLocaleString_enIN sample_platform (Fin 25000) = Some (js ''25,000'')"
  by (simp_all add: sample_platform_def show_nat.simps indian_grouping_def
      group_pairs.simps js_def)

lemma show_nat_digits: "c \<in> set (show_nat n) \<Longrightarrow> 48 \<le> c \<and> c \<le> 57"
proof (induction n rule: show_nat.induct)
  case (1 n)
  show ?case
  proof (cases "n < 10")
    case True
    with 1(2) show ?thesis by (simp add: show_nat.simps [of n])
  next
    case False
    with 1 show ?thesis by (auto simp: show_nat.simps [of n])
  qed
qed

lemma show_nat_no_bracket [simp]: "91 \<notin> set (show_nat n)"
  using show_nat_digits [of 91 n] by auto

lemma sample_bracket_free:
  "91 \<notin> set (productContext sample_platform sample_product)"
  "91 \<notin> set (historyContext sample_history)"
proof -
  have "91 \<notin> set (10 # listing sample_platform sample_product @ [10, 10] @
       (if faqBlock sample_product = [] then [] else 10 # faqBlock sample_product) @ [10])"
    by (simp add: listing_def required_lines_def optional_lines_def fee_line_def
        prepayment_line_def speed_line_def docs_line_def summary_line_def faqBlock_def
        faqEntry_def enumerate_eq_zip sample_product_def sample_numbers
        rupee_def js_def upt_rec)
  then show "91 \<notin> set (productContext sample_platform sample_product)"
    unfolding context_parts using set_js_trim by blast
  show "91 \<notin> set (historyContext sample_history)"
    by (simp add: historyContext_def sample_history_def js_def)
qed


section \<open>The lines of the prompt\<close>

text \<open>
  For single-line inputs the lines of the prompt are the lines of the instruction, a
  blank line, the lines of the product context as \<open>trim\<close> leaves them, a blank line, the
  lines of the history context, then the question and the closing directive between
  blank lines.
\<close>

lemma js_lines_Cons_nl: "js_lines (10 # b) = [] # js_lines b"
  by simp

lemma js_lines_join:
  "cs \<noteq> [] \<Longrightarrow> js_lines (js_join [10] cs) = concat (map js_lines cs)"
proof (induction cs)
  case Nil
  then show ?case by simp
next
  case (Cons x xs)
  show ?case
  proof (cases xs)
    case Nil
    then show ?thesis by simp
  next
    case (Cons y ys)
    have "js_lines (x @ 10 # js_join [10] (y # ys)) = js_lines x @ js_lines (js_join [10] (y # ys))"
      by (rule js_lines_append_nl)
    with Cons Cons.IH show ?thesis by simp
  qed
qed

lemma concat_single_lines:
  "list_all single_line cs \<Longrightarrow> concat (map js_lines cs) = cs"
  by (induction cs) (simp_all add: js_lines_single)

lemma instruction_as_lines:
  "systemInstruction pf p = js_join [10] (instruction_lines pf p)"
  by (simp add: systemInstruction_def instruction_lines_def js_def)

lemma of_char_newline: "(of_char c :: nat) = 10 \<longleftrightarrow> c = CHR 0x0A"
proof
  assume "(of_char c :: nat) = 10"
  moreover have "(of_char (CHR 0x0A) :: nat) = 10" by simp
  ultimately have "(of_char c :: nat) = of_char (CHR 0x0A)" by (rule trans [OF _ sym])
  then show "c = CHR 0x0A" by (simp only: of_char_eq_iff)
next
  assume "c = CHR 0x0A"
  then show "(of_char c :: nat) = 10" by simp
qed

lemma single_line_js [simp]: "single_line (js s) \<longleftrightarrow> CHR 0x0A \<notin> set s"
proof -
  have "(10::nat) \<in> set (map of_char s) \<longleftrightarrow> CHR 0x0A \<in> set s"
  proof (induction s)
    case Nil
    then show ?case by simp
  next
    case (Cons c s)
    have "(10::nat) = of_char c \<longleftrightarrow> c = CHR 0x0A"
      using of_char_newline [of c] by (simp only: eq_commute)
    with Cons show ?case by (simp only: list.map set_simps insert_iff) metis
  qed
  then show ?thesis by (simp add: single_line_def js_def)
qed

lemma single_line_append [simp]:
  "single_line (a @ b) \<longleftrightarrow> single_line a \<and> single_line b"
  by (auto simp: single_line_def)

lemma single_line_Nil [simp]: "single_line []"
  by (simp add: single_line_def)

lemma instruction_lines_single:
  assumes "single_line (name p)" "single_line (bank p)"
    "single_line (numToString pf (rate_apr p))"
  shows "js_lines (systemInstruction pf p) = instruction_lines pf p"
proof -
  have "list_all single_line (instruction_lines pf p)"
    using assms by (simp add: instruction_lines_def)
  moreover have "instruction_lines pf p \<noteq> []" by (simp add: instruction_lines_def)
  ultimately show ?thesis
    by (simp add: instruction_as_lines js_lines_join concat_single_lines)
qed

lemma instruction_heads:
  "map line_head (instruction_lines pf p) =
     [Some 89, None, Some 67, Some 49, Some 50, Some 51, Some 52, Some 53]"
  by (simp add: instruction_lines_def line_head_def js_def)

lemma js_lines_snoc_nl: "js_lines (xs @ [10]) = js_lines xs @ [[]]"
  by (simp add: js_lines_snoc)

lemma loanTypeString_single_line [simp]: "single_line (loanTypeString t)"
  by (cases t) simp_all

lemma trimStart_listing: "js_trimStart (10 # listing pf p @ rest) = listing pf p @ rest"
proof -
  obtain r where r: "listing pf p = 80 # r" using listing_starts by blast
  have "\<not> is_js_whitespace 80" by (simp add: is_js_whitespace_def)
  then show ?thesis using r by (simp add: js_trimStart_def)
qed

lemma context_lines_general:
  "js_lines (productContext pf p) =
     trim_lines (concat (map js_lines (required_lines pf p @ optional_lines pf p)) @ [[]] @
       (if faqBlock p = [] then [[]] else [] # js_lines (faqBlock p)) @ [[]])"
proof -
  let ?slot = "if faqBlock p = [] then [] else 10 # faqBlock p"
  have ne: "required_lines pf p @ optional_lines pf p \<noteq> []"
    by (simp add: required_lines_def)
  have "productContext pf p = js_trimEnd (listing pf p @ 10 # (10 # ?slot @ [10]))"
    by (simp add: context_parts js_trim_def trimStart_listing del: js_lines.simps)
  then have "js_lines (productContext pf p) =
      trim_lines (js_lines (listing pf p @ 10 # (10 # ?slot @ [10])))"
    by (simp only: js_lines_trimEnd)
  also have "js_lines (listing pf p @ 10 # (10 # ?slot @ [10])) =
      js_lines (listing pf p) @ js_lines (10 # ?slot @ [10])"
    by (rule js_lines_append_nl)
  also have "js_lines (10 # ?slot @ [10]) = [] # js_lines ?slot @ [[]]"
    by (simp only: js_lines_Cons_nl js_lines_snoc_nl)
  also have "js_lines ?slot = (if faqBlock p = [] then [[]] else [] # js_lines (faqBlock p))"
    by simp
  also have "js_lines (listing pf p) =
      concat (map js_lines (required_lines pf p @ optional_lines pf p))"
    unfolding listing_def using ne by (rule js_lines_join)
  finally show ?thesis by simp
qed

lemma show_nat_single_line [simp]: "single_line (show_nat n)"
  using show_nat_digits [of 10 n] by (auto simp: single_line_def)

lemma faqEntry_as_lines:
  "faqEntry e = 10 # question_line_of e @ 10 # answer_line_of e @ [10]"
  by (cases e) (simp add: faqEntry_def question_line_of_def answer_line_of_def js_def)

lemma faq_entries_lines:
  assumes "list_all (\<lambda>e. single_line (faq_q (snd e)) \<and> single_line (faq_a (snd e))) es"
  shows "js_lines (concat (map faqEntry es)) =
           concat (map (\<lambda>e. [[], question_line_of e, answer_line_of e]) es) @ [[]]"
  using assms
proof (induction es)
  case Nil
  then show ?case by simp
next
  case (Cons e es)
  obtain i f where e: "e = (i, f)" by (cases e)
  have q: "single_line (question_line_of e)" and a: "single_line (answer_line_of e)"
    using Cons.prems by (simp_all add: e question_line_of_def answer_line_of_def)
  let ?rest = "concat (map faqEntry es)"
  have "js_lines (10 # question_line_of e @ 10 # (answer_line_of e @ 10 # ?rest)) =
        [] # js_lines (question_line_of e @ 10 # (answer_line_of e @ 10 # ?rest))"
    by (rule js_lines_Cons_nl)
  also have "js_lines (question_line_of e @ 10 # (answer_line_of e @ 10 # ?rest)) =
        js_lines (question_line_of e) @ js_lines (answer_line_of e @ 10 # ?rest)"
    by (rule js_lines_append_nl)
  also have "js_lines (answer_line_of e @ 10 # ?rest) = js_lines (answer_line_of e) @ js_lines ?rest"
    by (rule js_lines_append_nl)
  finally have "js_lines (10 # question_line_of e @ 10 # (answer_line_of e @ 10 # ?rest)) =
        [] # js_lines (question_line_of e) @ js_lines (answer_line_of e) @ js_lines ?rest" .
  moreover have "faqEntry e @ ?rest =
        10 # question_line_of e @ 10 # (answer_line_of e @ 10 # ?rest)"
    by (simp add: faqEntry_as_lines [of e])
  ultimately have "js_lines (faqEntry e @ ?rest) =
        [] # js_lines (question_line_of e) @ js_lines (answer_line_of e) @ js_lines ?rest"
    by (simp only:)
  moreover have "js_lines ?rest =
        concat (map (\<lambda>e. [[], question_line_of e, answer_line_of e]) es) @ [[]]"
    using Cons by simp
  ultimately show ?case
    using q a by (simp add: js_lines_single del: js_lines.simps)
qed

lemma enumerate_snd_all:
  "list_all (\<lambda>e. P (snd e)) (enumerate n xs) = list_all P xs"
  by (induction xs arbitrary: n) simp_all

lemma faq_slot_lines_single:
  assumes "case faq p of
        Some faqs \<Rightarrow> list_all (\<lambda>f. single_line (faq_q f) \<and> single_line (faq_a f)) faqs
      | None \<Rightarrow> True"
  shows "(if faqBlock p = [] then [[]] else [] # js_lines (faqBlock p)) = faq_slot_lines p"
proof (cases "faq p")
  case None
  then show ?thesis by (simp add: faqBlock_def faq_slot_lines_def)
next
  case (Some fs)
  show ?thesis
  proof (cases "fs = []")
    case True
    with Some show ?thesis by (simp add: faqBlock_def faq_slot_lines_def)
  next
    case False
    let ?es = "enumerate 0 fs"
    have all: "list_all (\<lambda>e. single_line (faq_q (snd e)) \<and> single_line (faq_a (snd e))) ?es"
      using assms Some
        enumerate_snd_all [of "\<lambda>f. single_line (faq_q f) \<and> single_line (faq_a f)" 0 fs]
      by simp
    have fb: "faqBlock p = js ''FREQUENTLY ASKED QUESTIONS:'' @ 10 # concat (map faqEntry ?es)"
      using Some False by (simp add: faqBlock_def)
    have "js_lines (faqBlock p) =
        js_lines (js ''FREQUENTLY ASKED QUESTIONS:'') @ js_lines (concat (map faqEntry ?es))"
      unfolding fb by (rule js_lines_append_nl)
    also have "js_lines (js ''FREQUENTLY ASKED QUESTIONS:'') = [js ''FREQUENTLY ASKED QUESTIONS:'']"
      by (rule js_lines_single) simp
    finally have "js_lines (faqBlock p) = js ''FREQUENTLY ASKED QUESTIONS:'' #
        concat (map (\<lambda>e. [[], question_line_of e, answer_line_of e]) ?es) @ [[]]"
      using faq_entries_lines [OF all] by simp
    moreover have "faqBlock p \<noteq> []" unfolding fb by (simp add: js_def)
    ultimately show ?thesis using Some False by (simp add: faq_slot_lines_def)
  qed
qed

lemma formatCurrencyINR_cases:
  "formatCurrencyINR pf v = not_specified \<or>
   (\<exists>n. v = Value n \<and> n \<noteq> NaN \<and>
      formatCurrencyINR pf v =
        rupee @ (case toLocaleString_enIN pf n of Some s \<Rightarrow> s | None \<Rightarrow> numToString pf n))"
  by (cases v) (auto split: option.splits)

lemma context_lines_single:
  assumes "single_line_product pf p"
  shows "js_lines (productContext pf p) = trim_lines (context_lines pf p)"
proof -
  have req: "list_all single_line (required_lines pf p)"
    using assms by (simp add: single_line_product_def required_lines_def)
  have opt: "list_all single_line (optional_lines pf p)"
    using assms
    by (simp add: single_line_product_def optional_lines_def fee_line_def prepayment_line_def
        speed_line_def docs_line_def summary_line_def opt_single_line_def
        split: option.splits)
  have "concat (map js_lines (required_lines pf p @ optional_lines pf p)) =
        required_lines pf p @ optional_lines pf p"
    by (rule concat_single_lines) (use req opt in simp)
  moreover have "(if faqBlock p = [] then [[]] else [] # js_lines (faqBlock p)) = faq_slot_lines p"
    by (rule faq_slot_lines_single) (use assms in \<open>simp add: single_line_product_def\<close>)
  ultimately show ?thesis
    by (simp only: context_lines_general context_lines_def append_assoc)
qed

lemma history_lines_single:
  assumes "list_all (\<lambda>msg. single_line (content msg)) h"
  shows "js_lines (historyContext h) = history_lines h"
proof (cases "h = []")
  case True
  then show ?thesis by (simp add: historyContext_def history_lines_def)
next
  case False
  let ?ls = "map (\<lambda>msg. roleUpperCase (role msg) @ js '': '' @ content msg) h"
  have role1: "single_line (roleUpperCase r)" for r by (cases r) simp_all
  have all: "list_all single_line ?ls"
    using assms by (induction h) (simp_all add: role1)
  have ne: "?ls \<noteq> []" using False by simp
  have hc: "historyContext h = 10 # (js ''PREVIOUS CONVERSATION:'' @ 10 # (js_join [10] ?ls @ [10]))"
    using False by (simp add: historyContext_def js_def)
  have "js_lines (historyContext h) =
      [] # js_lines (js ''PREVIOUS CONVERSATION:'') @ js_lines (js_join [10] ?ls @ [10])"
    unfolding hc by (simp only: js_lines_Cons_nl js_lines_append_nl)
  also have "js_lines (js ''PREVIOUS CONVERSATION:'') = [js ''PREVIOUS CONVERSATION:'']"
    by (rule js_lines_single) simp
  also have "js_lines (js_join [10] ?ls @ [10]) = js_lines (js_join [10] ?ls) @ [[]]"
    by (rule js_lines_snoc_nl)
  also have "js_lines (js_join [10] ?ls) = ?ls"
    using js_lines_join [OF ne] concat_single_lines [OF all] by simp
  finally show ?thesis using False by (simp add: history_lines_def turn_line_def)
qed

lemma prompt_lines_general:
  "js_lines (buildGroundedPrompt pf p m h) =
     js_lines (systemInstruction pf p) @ [[]] @ js_lines (productContext pf p) @ [[]] @
     js_lines (historyContext h) @ [[]] @ js_lines (questionLine m) @ [[], closingDirective]"
proof -
  have c: "js_lines closingDirective = [closingDirective]"
    by (rule js_lines_single) (simp add: closingDirective_def)
  have "buildGroundedPrompt pf p m h =
     systemInstruction pf p @ 10 # (10 # (productContext pf p @ 10 # (10 # (
     historyContext h @ 10 # (10 # (questionLine m @ 10 # (10 # closingDirective)))))))"
    by (simp add: prompt_parts)
  then show ?thesis
    by (simp only: js_lines_append_nl js_lines_Cons_nl c) simp
qed

lemma prompt_lines_single:
  assumes "single_line_inputs pf p m h"
  shows "js_lines (buildGroundedPrompt pf p m h) =
     instruction_lines pf p @ [[]] @ trim_lines (context_lines pf p) @ [[]] @
     history_lines h @ [[], questionLine m, [], closingDirective]"
proof -
  have sp: "single_line_product pf p" and sm: "single_line m"
    and sh: "list_all (\<lambda>msg. single_line (content msg)) h"
    using assms by (simp_all add: single_line_inputs_def)
  have i: "js_lines (systemInstruction pf p) = instruction_lines pf p"
    by (rule instruction_lines_single) (use sp in \<open>simp_all add: single_line_product_def\<close>)
  have q: "js_lines (questionLine m) = [questionLine m]"
    by (rule js_lines_single) (use sm in \<open>simp add: questionLine_def\<close>)
  show ?thesis
    by (simp only: prompt_lines_general i q context_lines_single [OF sp]
        history_lines_single [OF sh]) simp
qed

lemmas label_defs = fee_label_def prepayment_label_def speed_label_def docs_label_def
  summary_label_def income_label_def faq_header_def

subsection \<open>Counting labelled lines\<close>

lemma filter_plain:
  "context_only P \<Longrightarrow> list_all plain_line ls \<Longrightarrow> filter P ls = []"
  by (induction ls) (auto simp: context_only_def plain_line_def)

lemma instruction_plain: "list_all plain_line (instruction_lines pf p)"
  by (simp add: instruction_lines_def plain_line_def line_head_def is_qa_line_def js_def)

lemma history_plain: "list_all plain_line (history_lines h)"
proof -
  have "plain_line (turn_line msg)" for msg
    by (cases "role msg")
      (simp_all add: turn_line_def plain_line_def line_head_def is_qa_line_def js_def)
  then have "list_all plain_line (map turn_line h)" by (induction h) simp_all
  moreover have "plain_line []" "plain_line (js ''PREVIOUS CONVERSATION:'')"
    by (simp_all add: plain_line_def line_head_def is_qa_line_def js_def)
  ultimately show ?thesis by (simp add: history_lines_def)
qed

lemma outside_context:
  assumes "single_line_inputs pf p m h" "context_only P"
  shows "filter P (js_lines (buildGroundedPrompt pf p m h)) =
         filter P (trim_lines (context_lines pf p))"
proof -
  have e: "plain_line []" by (simp add: plain_line_def line_head_def is_qa_line_def)
  have q: "plain_line (questionLine m)"
    by (simp add: questionLine_def plain_line_def line_head_def is_qa_line_def js_def)
  have c: "plain_line closingDirective"
    by (simp add: closingDirective_def plain_line_def line_head_def is_qa_line_def js_def)
  have 1: "filter P (instruction_lines pf p) = []"
    using assms(2) instruction_plain by (rule filter_plain)
  have 2: "filter P (history_lines h) = []"
    using assms(2) history_plain by (rule filter_plain)
  have 3: "filter P [[]] = []"
    using assms(2) by (rule filter_plain) (simp add: e)
  have 4: "filter P [[], questionLine m, [], closingDirective] = []"
    using assms(2) by (rule filter_plain) (simp add: e q c)
  show ?thesis
    unfolding prompt_lines_single [OF assms(1)] filter_append 1 2 3 4 by simp
qed

lemma context_only_prefix:
  "L = c # r \<Longrightarrow> c = 45 \<or> c = 70 \<Longrightarrow> context_only (prefix L)"
  by (auto simp: context_only_def line_head_def prefix_def)

lemma label_context_only:
  "context_only (prefix fee_label)" "context_only (prefix prepayment_label)"
  "context_only (prefix speed_label)" "context_only (prefix docs_label)"
  "context_only (prefix summary_label)" "context_only (prefix income_label)"
  "context_only (prefix faq_header)"
  by (rule context_only_prefix, simp add: label_defs js_def, simp)+

lemma label_trim_stable:
  "trim_stable (prefix fee_label)" "trim_stable (prefix prepayment_label)"
  "trim_stable (prefix speed_label)" "trim_stable (prefix docs_label)"
  "trim_stable (prefix summary_label)" "trim_stable (prefix income_label)"
  "trim_stable (prefix faq_header)"
  by (rule trim_stable_prefix; simp add: label_defs js_def is_js_whitespace_def)+

lemma fee_line_prefixes:
  "prefix fee_label (fee_line pf p) = truthy_num (processing_fee_pct p)"
  "prefix prepayment_label (fee_line pf p) = False"
  "prefix speed_label (fee_line pf p) = False"
  "prefix docs_label (fee_line pf p) = False"
  "prefix summary_label (fee_line pf p) = False"
  "prefix income_label (fee_line pf p) = False"
  by (simp_all add: fee_line_def label_defs js_def split: option.splits)

lemma prepayment_line_prefixes:
  "prefix fee_label (prepayment_line p) = False"
  "prefix prepayment_label (prepayment_line p) = (prepayment_allowed p \<noteq> None)"
  "prefix speed_label (prepayment_line p) = False"
  "prefix docs_label (prepayment_line p) = False"
  "prefix summary_label (prepayment_line p) = False"
  "prefix income_label (prepayment_line p) = False"
  by (simp_all add: prepayment_line_def label_defs js_def split: option.splits)

lemma speed_line_prefixes:
  "prefix fee_label (speed_line p) = False"
  "prefix prepayment_label (speed_line p) = False"
  "prefix speed_label (speed_line p) = truthy_str (disbursal_speed p)"
  "prefix docs_label (speed_line p) = False"
  "prefix summary_label (speed_line p) = False"
  "prefix income_label (speed_line p) = False"
  by (simp_all add: speed_line_def label_defs js_def split: option.splits)

lemma docs_line_prefixes:
  "prefix fee_label (docs_line p) = False"
  "prefix prepayment_label (docs_line p) = False"
  "prefix speed_label (docs_line p) = False"
  "prefix docs_label (docs_line p) = truthy_str (docs_level p)"
  "prefix summary_label (docs_line p) = False"
  "prefix income_label (docs_line p) = False"
  by (simp_all add: docs_line_def label_defs js_def split: option.splits)

lemma summary_line_prefixes:
  "prefix fee_label (summary_line p) = False"
  "prefix prepayment_label (summary_line p) = False"
  "prefix speed_label (summary_line p) = False"
  "prefix docs_label (summary_line p) = False"
  "prefix summary_label (summary_line p) = truthy_str (summary p)"
  "prefix income_label (summary_line p) = False"
  by (simp_all add: summary_line_def label_defs js_def split: option.splits)

lemmas optional_prefixes = fee_line_prefixes prepayment_line_prefixes speed_line_prefixes
  docs_line_prefixes summary_line_prefixes

lemma required_no_optional_label:
  "filter (prefix fee_label) (required_lines pf p) = []"
  "filter (prefix prepayment_label) (required_lines pf p) = []"
  "filter (prefix speed_label) (required_lines pf p) = []"
  "filter (prefix docs_label) (required_lines pf p) = []"
  "filter (prefix summary_label) (required_lines pf p) = []"
  by (simp_all add: required_lines_def label_defs js_def)

lemma show_nat_head: "\<exists>d ds. show_nat n = d # ds \<and> 48 \<le> d \<and> d \<le> 57"
proof -
  have "show_nat n \<noteq> []"
    by (cases "n < 10") (simp_all add: show_nat.simps [of n])
  then obtain d ds where "show_nat n = d # ds" by (cases "show_nat n") auto
  moreover from this have "48 \<le> d \<and> d \<le> 57" using show_nat_digits [of d n] by simp
  ultimately show ?thesis by blast
qed

lemma qa_line_heads:
  "is_qa_line (question_line_of e)" "is_qa_line (answer_line_of e)"
  "line_head (question_line_of e) = Some 81" "line_head (answer_line_of e) = Some 65"
proof -
  obtain i f where e: "e = (i, f)" by (cases e)
  obtain d ds where d: "show_nat (i + 1) = d # ds" "48 \<le> d \<and> d \<le> 57"
    using show_nat_head by blast
  show "is_qa_line (question_line_of e)" "is_qa_line (answer_line_of e)"
    "line_head (question_line_of e) = Some 81" "line_head (answer_line_of e) = Some 65"
    using d by (simp_all add: e question_line_of_def answer_line_of_def is_qa_line_def
        line_head_def js_def)
qed

lemma faq_slot_members:
  "l \<in> set (faq_slot_lines p) \<Longrightarrow>
     l = [] \<or> l = js ''FREQUENTLY ASKED QUESTIONS:'' \<or>
     (\<exists>e. l = question_line_of e \<or> l = answer_line_of e)"
  by (auto simp: faq_slot_lines_def split: option.splits if_splits)

lemma faq_slot_no_dash: "l \<in> set (faq_slot_lines p) \<Longrightarrow> line_head l \<noteq> Some 45"
proof -
  assume "l \<in> set (faq_slot_lines p)"
  then consider "l = []" | "l = js ''FREQUENTLY ASKED QUESTIONS:''"
    | e where "l = question_line_of e" | e where "l = answer_line_of e"
    using faq_slot_members by blast
  then show ?thesis
  proof cases
    case 1
    then show ?thesis by (simp add: line_head_def)
  next
    case 2
    then show ?thesis by (simp add: line_head_def js_def)
  next
    case 3
    then show ?thesis by (simp add: qa_line_heads)
  next
    case 4
    then show ?thesis by (simp add: qa_line_heads)
  qed
qed

lemma filter_dash_faq_slot:
  assumes "L = 45 # r"
  shows "filter (prefix L) (faq_slot_lines p) = []"
proof -
  have "\<not> prefix L l" if "l \<in> set (faq_slot_lines p)" for l
    using faq_slot_no_dash [OF that] assms by (auto simp: line_head_def prefix_def)
  then show ?thesis by (simp add: filter_empty_conv)
qed

lemma label_dash:
  "\<exists>r. fee_label = 45 # r" "\<exists>r. prepayment_label = 45 # r" "\<exists>r. speed_label = 45 # r"
  "\<exists>r. docs_label = 45 # r" "\<exists>r. summary_label = 45 # r" "\<exists>r. income_label = 45 # r"
  by (simp_all add: label_defs js_def)

lemma context_label_count:
  assumes ts: "trim_stable (prefix L)" and dash: "\<exists>r. L = 45 # r"
    and req: "filter (prefix L) (required_lines pf p) = []"
  shows "length (filter (prefix L) (trim_lines (context_lines pf p))) =
         length (filter (prefix L) (optional_lines pf p))"
proof -
  obtain r where r: "L = 45 # r" using dash by blast
  have e: "\<not> prefix L []" using r by simp
  have "length (filter (prefix L) (trim_lines (context_lines pf p))) =
        length (filter (prefix L) (context_lines pf p))"
    using ts by (rule trim_lines_count)
  also have "\<dots> = length (filter (prefix L) (optional_lines pf p))"
    using req e filter_dash_faq_slot [OF r, of p] by (simp add: context_lines_def)
  finally show ?thesis .
qed

lemma label_count_in_optional:
  assumes "single_line_inputs pf p m h"
    and "L = fee_label \<or> L = prepayment_label \<or> L = speed_label \<or> L = docs_label \<or>
         L = summary_label"
  shows "count_lines L (buildGroundedPrompt pf p m h) =
         length (filter (prefix L) (optional_lines pf p))"
proof -
  have "context_only (prefix L)" "trim_stable (prefix L)" "\<exists>r. L = 45 # r"
    "filter (prefix L) (required_lines pf p) = []"
    using assms(2) label_context_only label_trim_stable label_dash required_no_optional_label
    by auto
  then show ?thesis
    unfolding count_lines_def
    by (simp add: outside_context [OF assms(1)] context_label_count)
qed

lemma single_line_Cons [simp]: "single_line (c # s) \<longleftrightarrow> c \<noteq> 10 \<and> single_line s"
  by (auto simp: single_line_def)

lemma sample_platform_single_line [simp]:
  "single_line (numToString sample_platform n)"
  by (simp add: sample_platform_def split: option.splits)

lemma sample_single_line:
  "single_line_product sample_platform sample_product"
  "single_line_product sample_platform zero_fee_product"
  by (simp_all add: single_line_product_def sample_product_def zero_fee_product_def
      sample_numbers rupee_def opt_single_line_def)

lemma sample_history_single_line:
  "list_all (\<lambda>msg. single_line (content msg)) sample_history"
  by (simp add: sample_history_def)

section \<open>The minimum-income line\<close>

lemma js_join_append:
  "A \<noteq> [] \<Longrightarrow> B \<noteq> [] \<Longrightarrow> js_join sep (A @ B) = js_join sep A @ sep @ js_join sep B"
proof (induction A)
  case Nil
  then show ?case by simp
next
  case (Cons x A)
  show ?case
  proof (cases A)
    case Nil
    with Cons.prems show ?thesis by (cases B) simp_all
  next
    case (Cons y ys)
    with Cons.IH Cons.prems show ?thesis by simp
  qed
qed

lemma required_lines_split:
  "required_lines pf p =
     take 5 (required_lines pf p) @ [income_line pf p] @ drop 6 (required_lines pf p)"
  by (simp add: required_lines_def income_line_def)

lemma after_income_starts:
  "\<exists>r. js_join [10] (drop 6 (required_lines pf p) @ optional_lines pf p) = 45 # r"
  by (simp add: required_lines_def optional_lines_def js_def)

lemma listing_around_income:
  "listing pf p =
     (js_join [10] (take 5 (required_lines pf p)) @ 10 # income_line pf p @ [10]) @
     js_join [10] (drop 6 (required_lines pf p) @ optional_lines pf p)"
proof -
  let ?A = "take 5 (required_lines pf p)"
  let ?B = "drop 6 (required_lines pf p) @ optional_lines pf p"
  have A: "?A \<noteq> []" and B: "?B \<noteq> []" by (simp_all add: required_lines_def)
  have "required_lines pf p @ optional_lines pf p = ?A @ ([income_line pf p] @ ?B)"
    using required_lines_split [of pf p] by simp
  then have "listing pf p = js_join [10] (?A @ ([income_line pf p] @ ?B))"
    by (simp only: listing_def)
  also have "\<dots> = js_join [10] ?A @ [10] @ js_join [10] ([income_line pf p] @ ?B)"
    using A by (intro js_join_append) simp_all
  also have "js_join [10] ([income_line pf p] @ ?B) =
      js_join [10] [income_line pf p] @ [10] @ js_join [10] ?B"
    using B by (intro js_join_append) simp_all
  finally show ?thesis by simp
qed

lemma income_line_in_context:
  "\<exists>X V. productContext pf p = X @ 10 # income_line pf p @ 10 # V"
proof -
  let ?U = "js_join [10] (take 5 (required_lines pf p)) @ 10 # income_line pf p @ [10]"
  let ?W = "js_join [10] (drop 6 (required_lines pf p) @ optional_lines pf p)"
  let ?T = "[10, 10] @ (if faqBlock p = [] then [] else 10 # faqBlock p) @ [10]"
  obtain r where r: "?W = 45 # r" using after_income_starts by blast
  have dash: "\<not> is_js_whitespace 45" by (simp add: is_js_whitespace_def)
  have nb: "\<not> blank (?W @ ?T)" using r dash by (simp add: blank_def)
  have "productContext pf p = js_trimEnd (listing pf p @ ?T)"
    by (simp add: context_parts js_trim_def trimStart_listing)
  also have "listing pf p @ ?T = ?U @ (?W @ ?T)"
    using listing_around_income [of pf p] by simp
  also have "js_trimEnd (?U @ (?W @ ?T)) = ?U @ js_trimEnd (?W @ ?T)"
    using nb by (rule js_trimEnd_nonblank_suffix)
  also have "js_trimEnd (?W @ ?T) = [45] @ js_trimEnd (r @ ?T)"
    using js_trimEnd_append_nonws [of "[45]" "r @ ?T"] dash r by simp
  finally have "productContext pf p =
      js_join [10] (take 5 (required_lines pf p)) @ 10 # income_line pf p @
      10 # (45 # js_trimEnd (r @ ?T))"
    by simp
  then show ?thesis by blast
qed

lemma income_line_in_prompt:
  "sublist (10 # income_line pf p @ [10]) (buildGroundedPrompt pf p m h)"
proof -
  obtain X V where pc: "productContext pf p = X @ 10 # income_line pf p @ 10 # V"
    using income_line_in_context by blast
  have "buildGroundedPrompt pf p m h =
      (systemInstruction pf p @ [10, 10] @ X) @ (10 # income_line pf p @ [10]) @
      (V @ [10, 10] @ historyContext h @ [10, 10] @ questionLine m @ [10, 10] @
       closingDirective)"
    by (simp add: prompt_parts pc)
  then show ?thesis unfolding sublist_def by blast
qed

lemma income_line_unique:
  assumes "single_line_inputs pf p m h"
  shows "filter (prefix income_label) (js_lines (buildGroundedPrompt pf p m h)) =
         [income_line pf p]"
proof -
  let ?P = "prefix income_label"
  let ?A = "butlast (required_lines pf p)"
  let ?B = "[last (required_lines pf p)] @ optional_lines pf p @ [[]] @ faq_slot_lines p @ [[]]"
  obtain r where r: "income_label = 45 # r" using label_dash by blast
  have cl: "context_lines pf p = ?A @ ?B"
    by (simp add: context_lines_def required_lines_def)
  have "\<not> blank (last (required_lines pf p))"
    by (simp add: required_lines_def blank_def js_def is_js_whitespace_def)
  then have "\<exists>l \<in> set ?B. \<not> blank l" by simp
  then have tl: "trim_lines (?A @ ?B) = ?A @ trim_lines ?B"
    by (rule trim_lines_keep_prefix)
  have A: "filter ?P ?A = [income_line pf p]"
    by (simp add: required_lines_def income_line_def income_label_def js_def)
  have "filter ?P ?B = []"
    using filter_dash_faq_slot [OF r, of p]
    by (simp add: required_lines_def optional_lines_def optional_prefixes)
      (simp add: income_label_def js_def)
  then have "length (filter ?P (trim_lines ?B)) = 0"
    using trim_lines_count [OF label_trim_stable(6), of ?B] by simp
  then have B: "filter ?P (trim_lines ?B) = []" by simp
  have "filter ?P (js_lines (buildGroundedPrompt pf p m h)) =
        filter ?P (trim_lines (context_lines pf p))"
    using assms label_context_only(6) by (rule outside_context)
  also have "\<dots> = [income_line pf p]"
    unfolding cl tl filter_append A B by simp
  finally show ?thesis .
qed

text \<open>
  Claim C4: when the minimum income is \<open>null\<close>, \<open>undefined\<close> or NaN, the prompt's
  ``Minimum Income Required'' line reads ``Not specified'': the line is there, it is
  not omitted and does not show zero.  When the minimum income is a number, the line
  shows the rupee sign followed by what \<open>toLocaleString('en-IN')\<close> returns for it.  The
  line stands in every prompt as a full line, and for single-line inputs it is the
  only line starting with that label.
\<close>

theorem minimum_income_line:
  "(min_income p = Null \<or> min_income p = Undefined \<or> min_income p = Value NaN \<longrightarrow>
      income_line pf p = js ''- Minimum Income Required: Not specified per month'') \<and>
   (min_income p = Value n \<and> n \<noteq> NaN \<and> toLocaleString_enIN pf n = Some loc \<longrightarrow>
      income_line pf p = js ''- Minimum Income Required: '' @ rupee @ loc @ js '' per month'') \<and>
   sublist (10 # income_line pf p @ [10]) (buildGroundedPrompt pf p m h) \<and>
   (single_line_inputs pf p m h \<longrightarrow>
      filter (prefix income_label) (js_lines (buildGroundedPrompt pf p m h)) =
        [income_line pf p])"
proof (intro conjI impI)
  assume "min_income p = Null \<or> min_income p = Undefined \<or> min_income p = Value NaN"
  then show "income_line pf p = js ''- Minimum Income Required: Not specified per month''"
    by (auto simp: income_line_def not_specified_def js_def)
next
  assume "min_income p = Value n \<and> n \<noteq> NaN \<and> toLocaleString_enIN pf n = Some loc"
  then show "income_line pf p =
      js ''- Minimum Income Required: '' @ rupee @ loc @ js '' per month''"
    by (simp add: income_line_def)
next
  show "sublist (10 # income_line pf p @ [10]) (buildGroundedPrompt pf p m h)"
    by (rule income_line_in_prompt)
next
  assume "single_line_inputs pf p m h"
  then show "filter (prefix income_label) (js_lines (buildGroundedPrompt pf p m h)) =
      [income_line pf p]"
    by (rule income_line_unique)
qed

theorem minimum_income_line_witness:
  "income_line sample_platform (sample_product\<lparr>min_income := Null\<rparr>) =
     js ''- Minimum Income Required: Not specified per month'' \<and>
   sublist (10 # js ''- Minimum Income Required: Not specified per month'' @ [10])
     (buildGroundedPrompt sample_platform (sample_product\<lparr>min_income := Null\<rparr>)
        (js ''What income do I need?'') []) \<and>
   income_line sample_platform sample_product =
     js ''- Minimum Income Required: '' @ rupee @ js ''25,000 per month'' \<and>
   filter (prefix income_label)
     (js_lines (buildGroundedPrompt sample_platform sample_product
        (js ''What income do I need?'') sample_history)) =
     [js ''- Minimum Income Required: '' @ rupee @ js ''25,000 per month'']"
proof -
  let ?null = "sample_product\<lparr>min_income := Null\<rparr>"
  have s: "single_line_inputs sample_platform sample_product (js ''What income do I need?'')
             sample_history"
    by (simp add: single_line_inputs_def sample_single_line sample_history_single_line)
  have m: "min_income sample_product = Value (Fin 25000) \<and> Fin 25000 \<noteq> NaN \<and>
           toLocaleString_enIN sample_platform (Fin 25000) = Some (js ''25,000'')"
    by (simp add: sample_product_def sample_numbers)
  have n: "min_income ?null = Null" by simp
  from minimum_income_line [of ?null sample_platform _ _ "js ''What income do I need?''" "[]"] n
  have 1: "income_line sample_platform ?null =
             js ''- Minimum Income Required: Not specified per month''"
    and 2: "sublist (10 # income_line sample_platform ?null @ [10])
             (buildGroundedPrompt sample_platform ?null (js ''What income do I need?'') [])"
    by blast+
  from minimum_income_line [of sample_product sample_platform "Fin 25000" "js ''25,000''"
      "js ''What income do I need?''" sample_history] m s
  have 3: "income_line sample_platform sample_product =
             js ''- Minimum Income Required: '' @ rupee @ js ''25,000'' @ js '' per month''"
    and 4: "filter (prefix income_label)
             (js_lines (buildGroundedPrompt sample_platform sample_product
                (js ''What income do I need?'') sample_history)) =
             [income_line sample_platform sample_product]"
    by blast+
  have 5: "js ''25,000'' @ js '' per month'' = js ''25,000 per month''" by (simp add: js_def)
  from 1 2 3 4 5 show ?thesis by simp
qed

section \<open>The FAQ block\<close>

lemma is_qa_line_shape:
  "is_qa_line l \<longleftrightarrow> (\<exists>c d r. l = [c, d] @ r \<and> (c = 81 \<or> c = 65) \<and> 48 \<le> d \<and> d \<le> 57)"
  by (auto simp: is_qa_line_def split: list.splits)

lemma trim_stable_qa: "trim_stable is_qa_line"
  unfolding trim_stable_def
proof (intro conjI allI impI)
  fix l assume "blank l"
  then show "\<not> is_qa_line l"
    by (auto simp: is_qa_line_shape blank_def is_js_whitespace_def)
next
  fix l
  show "is_qa_line (js_trimEnd l) = is_qa_line l"
  proof
    assume "is_qa_line (js_trimEnd l)"
    then obtain c d r where t: "js_trimEnd l = [c, d] @ r"
      and cd: "(c = 81 \<or> c = 65) \<and> 48 \<le> d \<and> d \<le> 57"
      unfolding is_qa_line_shape by blast
    obtain w where "l = js_trimEnd l @ w" using js_trimEnd_split by blast
    then have "l = [c, d] @ (r @ w)" using t by simp
    with cd show "is_qa_line l" unfolding is_qa_line_shape by blast
  next
    assume "is_qa_line l"
    then obtain c d r where l: "l = [c, d] @ r"
      and cd: "(c = 81 \<or> c = 65) \<and> 48 \<le> d \<and> d \<le> 57"
      unfolding is_qa_line_shape by blast
    have "\<not> is_js_whitespace (last [c, d])" using cd by (auto simp: is_js_whitespace_def)
    then have "js_trimEnd ([c, d] @ r) = [c, d] @ js_trimEnd r"
      by (intro js_trimEnd_append_nonws) simp_all
    with l cd show "is_qa_line (js_trimEnd l)" unfolding is_qa_line_shape by blast
  qed
qed

lemma context_only_qa: "context_only is_qa_line"
  by (simp add: context_only_def)

lemma listing_lines_no_qa:
  "filter is_qa_line (required_lines pf p) = []"
  "filter is_qa_line (optional_lines pf p) = []"
  by (simp_all add: required_lines_def optional_lines_def fee_line_def prepayment_line_def
      speed_line_def docs_line_def summary_line_def is_qa_line_def js_def
      split: option.splits)

lemma listing_lines_no_header:
  "filter (prefix faq_header) (required_lines pf p) = []"
  "filter (prefix faq_header) (optional_lines pf p) = []"
  by (simp_all add: required_lines_def optional_lines_def fee_line_def prepayment_line_def
      speed_line_def docs_line_def summary_line_def faq_header_def js_def
      split: option.splits)

lemma qa_blocks_filter:
  "filter is_qa_line (concat (map (\<lambda>e. [[], question_line_of e, answer_line_of e]) es)) =
     concat (map (\<lambda>e. [question_line_of e, answer_line_of e]) es)"
proof -
  have e: "\<not> is_qa_line []" by (simp add: is_qa_line_def)
  show ?thesis by (induction es) (simp_all add: qa_line_heads e)
qed

lemma qa_blocks_no_header:
  "filter (prefix faq_header) (concat (map (\<lambda>e. [[], question_line_of e, answer_line_of e]) es)) = []"
proof -
  have h: "\<not> prefix faq_header l" if "line_head l \<noteq> Some 70" for l
    using that by (cases l) (auto simp: faq_header_def js_def line_head_def)
  have 1: "\<not> prefix faq_header (question_line_of e)" for e
    by (rule h) (simp add: qa_line_heads)
  have 2: "\<not> prefix faq_header (answer_line_of e)" for e
    by (rule h) (simp add: qa_line_heads)
  have 3: "faq_header \<noteq> []"
    by (simp add: faq_header_def js_def)
  show ?thesis by (induction es) (simp_all add: 1 2 3)
qed

lemma faq_header_count:
  assumes "single_line_inputs pf p m h"
  shows "count_lines faq_header (buildGroundedPrompt pf p m h) =
         (if faq_list p = [] then 0 else 1)"
proof -
  let ?P = "prefix faq_header"
  have e: "\<not> ?P []" by (simp add: faq_header_def js_def)
  have f: "?P (js ''FREQUENTLY ASKED QUESTIONS:'')" by (simp add: faq_header_def)
  have slot: "length (filter ?P (faq_slot_lines p)) = (if faq_list p = [] then 0 else 1)"
    using e f by (simp add: faq_slot_lines_def faq_list_def qa_blocks_no_header
        split: option.splits)
  have "count_lines faq_header (buildGroundedPrompt pf p m h) =
        length (filter ?P (trim_lines (context_lines pf p)))"
    unfolding count_lines_def
    using outside_context [OF assms label_context_only(7)] by simp
  also have "\<dots> = length (filter ?P (context_lines pf p))"
    using label_trim_stable(7) by (rule trim_lines_count)
  also have "\<dots> = (if faq_list p = [] then 0 else 1)"
    using e slot by (simp add: context_lines_def listing_lines_no_header)
  finally show ?thesis .
qed

lemma enumerate_snoc:
  "enumerate n (xs @ [x]) = enumerate n xs @ [(n + length xs, x)]"
  by (simp add: enumerate_append_eq)

lemma qa_lines_in_prompt:
  assumes "single_line_inputs pf p m h"
  shows "filter is_qa_line (js_lines (buildGroundedPrompt pf p m h)) =
         trim_last (qa_lines (faq_list p))"
proof -
  let ?blk = "\<lambda>e. [[], question_line_of e, answer_line_of e]"
  let ?qa = "\<lambda>e. [question_line_of e, answer_line_of e]"
  have e: "\<not> is_qa_line []" by (simp add: is_qa_line_def)
  have out: "filter is_qa_line (js_lines (buildGroundedPrompt pf p m h)) =
        filter is_qa_line (trim_lines (context_lines pf p))"
    using assms context_only_qa by (rule outside_context)
  show ?thesis
  proof (cases "faq_list p = []")
    case True
    then have slot: "faq_slot_lines p = [[]]"
      by (auto simp: faq_slot_lines_def faq_list_def split: option.splits)
    have "length (filter is_qa_line (trim_lines (context_lines pf p))) =
          length (filter is_qa_line (context_lines pf p))"
      using trim_stable_qa by (rule trim_lines_count)
    also have "\<dots> = 0"
      using e by (simp add: context_lines_def slot listing_lines_no_qa)
    finally have "filter is_qa_line (trim_lines (context_lines pf p)) = []" by simp
    with out True show ?thesis by (simp add: trim_last_def qa_lines_def)
  next
    case False
    then obtain fs where fs: "faq p = Some fs" "fs \<noteq> []" "faq_list p = fs"
      by (auto simp: faq_list_def split: option.splits)
    obtain fs' f where sn: "fs = fs' @ [f]" using fs(2) by (metis rev_exhaust)
    let ?es' = "enumerate 0 fs'"
    let ?e = "(length fs', f)"
    have es: "enumerate 0 fs = ?es' @ [?e]" unfolding sn by (simp add: enumerate_snoc)
    let ?A = "required_lines pf p @ optional_lines pf p @
        [[], [], js ''FREQUENTLY ASKED QUESTIONS:''] @ concat (map ?blk ?es') @
        [[], question_line_of ?e]"
    have cl: "context_lines pf p = ?A @ [answer_line_of ?e] @ [[], []]"
      using fs by (simp add: context_lines_def faq_slot_lines_def es)
    have nh: "\<not> is_qa_line (js ''FREQUENTLY ASKED QUESTIONS:'')"
      by (simp add: is_qa_line_def js_def)
    have A: "filter is_qa_line ?A = concat (map ?qa ?es') @ [question_line_of ?e]"
      using e nh by (simp add: listing_lines_no_qa qa_blocks_filter qa_line_heads)
    have "filter is_qa_line (trim_lines (?A @ [answer_line_of ?e] @ [[], []])) =
          filter is_qa_line ?A @ [js_trimEnd (answer_line_of ?e)]"
      using trim_stable_qa qa_line_heads(2)
      by (rule trim_lines_filter_last) simp
    then have "filter is_qa_line (trim_lines (context_lines pf p)) =
          concat (map ?qa ?es') @ [question_line_of ?e, js_trimEnd (answer_line_of ?e)]"
      by (simp only: cl A) simp
    moreover have "trim_last (qa_lines fs) =
          concat (map ?qa ?es') @ [question_line_of ?e, js_trimEnd (answer_line_of ?e)]"
      by (simp add: trim_last_def qa_lines_def es butlast_append)
    ultimately show ?thesis using out fs(3) by simp
  qed
qed

lemma qa_lines_nth:
  assumes "i < length fs"
  shows "qa_lines fs ! (2 * i) = js ''Q'' @ show_nat (i + 1) @ js '': '' @ faq_q (fs ! i) \<and>
         qa_lines fs ! (2 * i + 1) = js ''A'' @ show_nat (i + 1) @ js '': '' @ faq_a (fs ! i)"
proof -
  have gen: "concat (map (\<lambda>e. [question_line_of e, answer_line_of e]) (enumerate n fs)) ! (2 * i) =
          question_line_of (n + i, fs ! i) \<and>
        concat (map (\<lambda>e. [question_line_of e, answer_line_of e]) (enumerate n fs)) ! (2 * i + 1) =
          answer_line_of (n + i, fs ! i)" for n
    using assms
  proof (induction fs arbitrary: n i)
    case Nil
    then show ?case by simp
  next
    case (Cons f fs)
    show ?case
    proof (cases i)
      case 0
      then show ?thesis by simp
    next
      case (Suc j)
      with Cons.prems have "j < length fs" by simp
      from Cons.IH [OF this, of "Suc n"] Suc show ?thesis by simp
    qed
  qed
  from gen [of 0] show ?thesis
    by (simp add: qa_lines_def question_line_of_def answer_line_of_def)
qed

lemma qa_lines_length: "length (qa_lines fs) = 2 * length fs"
proof -
  have "length (concat (map (\<lambda>e. [question_line_of e, answer_line_of e]) es)) = 2 * length es"
    for es by (induction es) simp_all
  then show ?thesis by (simp add: qa_lines_def)
qed

text \<open>
  Claim C5, as stated: a product with an empty or absent FAQ list gives a prompt
  without a FAQ section header, and one with N entries gives exactly N numbered
  pairs.  Read on the lines of the prompt this fails for a record whose text carries
  a line break: the summary below ends in a line that reads as the FAQ header, and
  the prompt of this product, whose FAQ list is empty, has that line.
\<close>

theorem injected_header_counterexample:
  "faq injected_product = Some [] \<and>
   count_lines faq_header
     (buildGroundedPrompt sample_platform injected_product (js ''What is the rate?'') []) \<noteq> 0"
proof -
  let ?P = "prefix faq_header"
  let ?p = injected_product
  let ?A = "concat (map js_lines (required_lines sample_platform ?p @
              [fee_line sample_platform ?p, prepayment_line ?p, speed_line ?p, docs_line ?p])) @
            [js ''- Summary: Low rate'']"
  have f: "faq ?p = Some []" by (simp add: injected_product_def)
  then have fb: "faqBlock ?p = []" by (simp add: faqBlock_def)
  have sl: "js_lines (summary_line ?p) = [js ''- Summary: Low rate'', faq_header]"
    by (simp add: summary_line_def injected_product_def faq_header_def js_def)
  have "concat (map js_lines (required_lines sample_platform ?p @ optional_lines sample_platform ?p)) =
        ?A @ [faq_header]"
    by (simp add: optional_lines_def sl)
  then have "js_lines (productContext sample_platform ?p) =
        trim_lines (?A @ [faq_header] @ [[], [], []])"
    by (simp add: context_lines_general fb)
  moreover have "filter ?P (trim_lines (?A @ [faq_header] @ [[], [], []])) =
        filter ?P ?A @ [js_trimEnd faq_header]"
    using label_trim_stable(7) by (rule trim_lines_filter_last) simp_all
  ultimately have "filter ?P (js_lines (productContext sample_platform ?p)) \<noteq> []"
    by simp
  then have "filter ?P (js_lines (buildGroundedPrompt sample_platform ?p
        (js ''What is the rate?'') [])) \<noteq> []"
    by (simp add: prompt_lines_general)
  with f show ?thesis by (simp add: count_lines_def)
qed

text \<open>
  Claim C5, amended: for a product record, question and prior turns whose texts are
  single-line, the prompt has no line starting with the FAQ section header when the
  FAQ list is empty or absent and exactly one when it has entries; and its
  question/answer lines are exactly the 2N lines \<open>Qi: question\<close>, \<open>Ai: answer\<close> for
  i = 1..N in the order of the stored list, the last answer without its trailing
  white space (\<open>trim\<close> removes it).
\<close>

theorem faq_block_lines:
  assumes "single_line_inputs pf p m h"
  shows "count_lines faq_header (buildGroundedPrompt pf p m h) =
           (if faq_list p = [] then 0 else 1) \<and>
         filter is_qa_line (js_lines (buildGroundedPrompt pf p m h)) =
           trim_last (qa_lines (faq_list p)) \<and>
         length (qa_lines (faq_list p)) = 2 * length (faq_list p) \<and>
         (\<forall>i < length (faq_list p).
            qa_lines (faq_list p) ! (2 * i) =
              js ''Q'' @ show_nat (i + 1) @ js '': '' @ faq_q (faq_list p ! i) \<and>
            qa_lines (faq_list p) ! (2 * i + 1) =
              js ''A'' @ show_nat (i + 1) @ js '': '' @ faq_a (faq_list p ! i))"
  using faq_header_count [OF assms] qa_lines_in_prompt [OF assms] qa_lines_length qa_lines_nth
  by blast

theorem faq_block_lines_witness:
  "single_line_inputs sample_platform sample_product (js ''How fast is it?'') sample_history \<and>
   count_lines faq_header
     (buildGroundedPrompt sample_platform sample_product (js ''How fast is it?'') sample_history) = 1 \<and>
   filter is_qa_line
     (js_lines (buildGroundedPrompt sample_platform sample_product (js ''How fast is it?'')
        sample_history)) =
     [js ''Q1: Is there a fee?'', js ''A1: Yes, 1%.'', js ''Q2: How fast?'', js ''A2: Two days.''] \<and>
   count_lines faq_header
     (buildGroundedPrompt sample_platform (sample_product\<lparr>faq := Some []\<rparr>)
        (js ''How fast is it?'') sample_history) = 0"
proof -
  have s: "single_line_inputs sample_platform sample_product (js ''How fast is it?'')
             sample_history"
    by (simp add: single_line_inputs_def sample_single_line sample_history_single_line)
  have s': "single_line_inputs sample_platform (sample_product\<lparr>faq := Some []\<rparr>)
             (js ''How fast is it?'') sample_history"
    using s by (simp add: single_line_inputs_def single_line_product_def)
  have l: "faq_list sample_product =
      [\<lparr>faq_q = js ''Is there a fee?'', faq_a = js ''Yes, 1%.''\<rparr>,
       \<lparr>faq_q = js ''How fast?'', faq_a = js ''Two days.''\<rparr>]"
    by (simp add: faq_list_def sample_product_def)
  have t: "trim_last (qa_lines (faq_list sample_product)) =
      [js ''Q1: Is there a fee?'', js ''A1: Yes, 1%.'', js ''Q2: How fast?'', js ''A2: Two days.'']"
    unfolding l
    by (simp add: trim_last_def qa_lines_def enumerate_eq_zip upt_rec question_line_of_def
        answer_line_of_def show_nat.simps js_trimEnd_def is_js_whitespace_def js_def)
  have l': "faq_list (sample_product\<lparr>faq := Some []\<rparr>) = []" by (simp add: faq_list_def)
  from faq_block_lines [OF s] faq_block_lines [OF s'] s t l l'
  show ?thesis by simp
qed

section \<open>Determinism of the prompt builder\<close>

lemma formatCurrencyINR_cong:
  "numToString pf = numToString pf' \<Longrightarrow> toLocaleString_enIN pf = toLocaleString_enIN pf' \<Longrightarrow>
   formatCurrencyINR pf v = formatCurrencyINR pf' v"
  by (cases v) (simp_all split: option.splits)

text \<open>
  Claim C6: identical product record, question and history give identical prompts.
  The prompt is a function of these three inputs and of the runtime's two number
  formatters, and of nothing else.
\<close>

theorem prompt_deterministic:
  "p = p' \<and> m = m' \<and> h = h' \<and> numToString pf = numToString pf' \<and>
   toLocaleString_enIN pf = toLocaleString_enIN pf' \<longrightarrow>
   buildGroundedPrompt pf p m h = buildGroundedPrompt pf' p' m' h'"
proof
  assume a: "p = p' \<and> m = m' \<and> h = h' \<and> numToString pf = numToString pf' \<and>
   toLocaleString_enIN pf = toLocaleString_enIN pf'"
  then have f: "formatCurrencyINR pf v = formatCurrencyINR pf' v" for v
    using formatCurrencyINR_cong by blast
  have "productContext pf p = productContext pf' p'"
    using a by (simp add: productContext_def f cong: option.case_cong if_cong)
  with a show "buildGroundedPrompt pf p m h = buildGroundedPrompt pf' p' m' h'"
    by (simp add: buildGroundedPrompt_def)
qed

theorem prompt_deterministic_witness:
  "buildGroundedPrompt sample_platform sample_product (js ''What is the rate?'') sample_history =
   buildGroundedPrompt (sample_platform\<lparr>toLowerCase := id\<rparr>) sample_product
     (js ''What is the rate?'') sample_history"
  using prompt_deterministic [of sample_product sample_product "js ''What is the rate?''"
      "js ''What is the rate?''" sample_history sample_history sample_platform
      "sample_platform\<lparr>toLowerCase := id\<rparr>"]
  by simp

section \<open>Provider selection\<close>

text \<open>
  Claim C7: with neither credential configured \<open>callLLMAPI\<close> fails with the
  configuration error and makes no network call; with the OpenAI credential configured
  (whether or not the Gemini one is) its only network call is the OpenAI request; with
  only the Gemini credential configured its only call is the Gemini request.
  A credential is configured when the variable is set to a non-empty string.
\<close>

theorem provider_selection:
  "(\<not> truthy_str (OPENAI_API_KEY env) \<and> \<not> truthy_str (GEMINI_API_KEY env) \<longrightarrow>
      callLLMAPI env fetch prompt = (Inl (NotConfigured not_configured_message), [])) \<and>
   (truthy_str (OPENAI_API_KEY env) \<longrightarrow>
      snd (callLLMAPI env fetch prompt) = [openai_request (the (OPENAI_API_KEY env)) prompt]) \<and>
   (\<not> truthy_str (OPENAI_API_KEY env) \<and> truthy_str (GEMINI_API_KEY env) \<longrightarrow>
      snd (callLLMAPI env fetch prompt) = [gemini_request (the (GEMINI_API_KEY env)) prompt])"
  by (simp add: callLLMAPI_def Let_def split: option.splits)

theorem provider_selection_witness:
  "callLLMAPI \<lparr>OPENAI_API_KEY = None, GEMINI_API_KEY = Some []\<rparr> (\<lambda>request. None) (js ''Hi'') =
     (Inl (NotConfigured not_configured_message), []) \<and>
   snd (callLLMAPI \<lparr>OPENAI_API_KEY = Some (js ''sk-test''), GEMINI_API_KEY = Some (js ''g-test'')\<rparr>
          (\<lambda>request. None) (js ''Hi'')) =
     [openai_request (js ''sk-test'') (js ''Hi'')] \<and>
   snd (callLLMAPI \<lparr>OPENAI_API_KEY = None, GEMINI_API_KEY = Some (js ''g-test'')\<rparr>
          (\<lambda>request. None) (js ''Hi'')) =
     [gemini_request (js ''g-test'') (js ''Hi'')]"
  using provider_selection [of "\<lparr>OPENAI_API_KEY = None, GEMINI_API_KEY = Some []\<rparr>"
      "\<lambda>request. None" "js ''Hi''"]
    provider_selection [of "\<lparr>OPENAI_API_KEY = Some (js ''sk-test''),
      GEMINI_API_KEY = Some (js ''g-test'')\<rparr>" "\<lambda>request. None" "js ''Hi''"]
    provider_selection [of "\<lparr>OPENAI_API_KEY = None, GEMINI_API_KEY = Some (js ''g-test'')\<rparr>"
      "\<lambda>request. None" "js ''Hi''"]
  by (simp add: js_def)

section \<open>The request handler\<close>

lemma safe_fallback_valid: "valid (validateAIResponse safe_fallback)"
proof -
  have "\<not> (\<exists>ph \<in> set denylist. phrase_at_word_boundaries ph safe_fallback)"
  proof
    assume "\<exists>ph \<in> set denylist. phrase_at_word_boundaries ph safe_fallback"
    then obtain ph where "ph \<in> set denylist" "ci_substring ph safe_fallback"
      using boundary_occurrence_is_substring by blast
    then show False
      by (auto simp: denylist_def ci_substring_def safe_fallback_def js_def canonicalize_def
          sublist_code)
  qed
  then show ?thesis
    using validate_loop_phrases [OF denylist_shape, of safe_fallback]
    by (simp add: validateAIResponse_def suspiciousPatterns_def)
qed

lemma POST_reply_cases:
  "fst (POST pf env db body) =
     (case body of
        NotJson \<Rightarrow> error_reply 500 (js ''Failed to process AI request'') None
      | _ \<Rightarrow>
        (case AIAskSchema_parse (is_uuid env) body of
           Inl issues \<Rightarrow> error_reply 400 (js ''Invalid request format'') (Some issues)
         | Inr r \<Rightarrow>
             (case session_user_id env of
                None \<Rightarrow> error_reply 500 (js ''Failed to process AI request'') None
              | Some userId \<Rightarrow>
             if \<not> truthy_str userId
             then error_reply 401 (js ''Unauthorized'') None
             else (case getProductById env (productId r) db of
                     None \<Rightarrow> error_reply 500 (js ''Failed to process AI request'') None
                   | Some None \<Rightarrow> error_reply 404 (js ''Product not found'') None
                   | Some (Some product) \<Rightarrow>
                       if valid (validateAIResponse (simulateAIResponse pf product (message r)))
                       then ok_reply (simulateAIResponse pf product (message r))
                       else ok_reply safe_fallback))))"
  by (simp add: POST_def Let_def split: request_body.splits sum.splits option.splits)

lemma reaches_reply_POST:
  assumes "reaches_reply env db body r product"
  shows "fst (POST pf env db body) =
           ok_reply (if valid (validateAIResponse (simulateAIResponse pf product (message r)))
                     then simulateAIResponse pf product (message r) else safe_fallback)"
  using assms
  by (auto simp: POST_reply_cases reaches_reply_def split: option.splits)

text \<open>
  Claim C8: whenever the gate judges the generated reply invalid, the handler answers
  with status 200, success, and the fixed fallback sentence as the message; the
  generated text is not the message.  More generally, no message the handler returns
  is a text the gate judges invalid.
\<close>

theorem gate_failure_gives_fallback:
  "(reaches_reply env db body r product \<and>
    \<not> valid (validateAIResponse (simulateAIResponse pf product (message r))) \<longrightarrow>
      fst (POST pf env db body) = ok_reply safe_fallback \<and>
      reply_message (fst (POST pf env db body)) \<noteq>
        Some (simulateAIResponse pf product (message r))) \<and>
   (reply_message (fst (POST pf env' db' body')) = Some t \<longrightarrow> valid (validateAIResponse t))"
proof (intro conjI impI)
  assume a: "reaches_reply env db body r product \<and>
    \<not> valid (validateAIResponse (simulateAIResponse pf product (message r)))"
  then show f: "fst (POST pf env db body) = ok_reply safe_fallback"
    using reaches_reply_POST [of env db body r product pf] by simp
  have "simulateAIResponse pf product (message r) \<noteq> safe_fallback"
    using a safe_fallback_valid by auto
  then show "reply_message (fst (POST pf env db body)) \<noteq>
        Some (simulateAIResponse pf product (message r))"
    unfolding f by (simp add: ok_reply_def)
next
  assume "reply_message (fst (POST pf env' db' body')) = Some t"
  then show "valid (validateAIResponse t)"
    using safe_fallback_valid
    by (auto simp: POST_reply_cases ok_reply_def error_reply_def
        split: request_body.splits sum.splits option.splits if_splits)
qed

lemma sample_reaches:
  "reaches_reply (sample_env\<lparr>getProductById := \<lambda>i db. Some (Some product)\<rparr>) db
     (Shaped sample_request) sample_request product"
  by (simp add: reaches_reply_def sample_env_def sample_request_def AIAskSchema_parse_def
      js_def)

lemma tenure_reply:
  "simulateAIResponse sample_platform (sample_product\<lparr>name := n\<rparr>) (message sample_request) =
     js ''The '' @ n @ js '' offers flexible tenure options ranging from 12 months (1 years) to 60 months (5 years). You can choose a tenure that fits your repayment capacity.''"
  by (simp add: simulateAIResponse_def sample_request_def sample_platform_def sample_product_def
      ascii_lower_def js_includes_def sublist_code show_nat.simps js_def)

lemma approval_reply_invalid:
  "\<not> valid (validateAIResponse
       (simulateAIResponse sample_platform approval_product (message sample_request)))"
proof -
  let ?post = "js '' Loan offers flexible tenure options ranging from 12 months (1 years) to 60 months (5 years). You can choose a tenure that fits your repayment capacity.''"
  let ?t = "simulateAIResponse sample_platform approval_product (message sample_request)"
  have t: "?t = js ''The '' @ js ''Instant Approval'' @ ?post"
    unfolding approval_product_def tenure_reply by (simp add: js_def)
  have "phrase_at_word_boundaries (js ''instant approval'') ?t"
    unfolding phrase_at_word_boundaries_def
  proof (intro exI conjI)
    show "?t = js ''The '' @ js ''Instant Approval'' @ ?post" by (rule t)
    show "map canonicalize (js ''Instant Approval'') = map canonicalize (js ''instant approval'')"
      by (simp add: js_def canonicalize_def)
    show "js ''The '' = [] \<or> \<not> is_word_char (last (js ''The ''))"
      by (simp add: js_def is_word_char_def)
    show "?post = [] \<or> \<not> is_word_char (hd ?post)"
      by (simp add: js_def is_word_char_def)
  qed
  then have "\<exists>ph \<in> set denylist. phrase_at_word_boundaries ph ?t"
    by (auto simp: denylist_def)
  then show ?thesis
    using validate_loop_phrases [OF denylist_shape, of ?t]
    by (simp add: validateAIResponse_def suspiciousPatterns_def)
qed

theorem gate_failure_gives_fallback_witness:
  "reaches_reply (sample_env\<lparr>getProductById := \<lambda>i db. Some (Some approval_product)\<rparr>) []
     (Shaped sample_request) sample_request approval_product \<and>
   \<not> valid (validateAIResponse
       (simulateAIResponse sample_platform approval_product (message sample_request))) \<and>
   fst (POST sample_platform
          (sample_env\<lparr>getProductById := \<lambda>i db. Some (Some approval_product)\<rparr>) []
          (Shaped sample_request)) = ok_reply safe_fallback"
proof -
  let ?env = "sample_env\<lparr>getProductById := \<lambda>i db. Some (Some approval_product)\<rparr>"
  have r: "reaches_reply ?env [] (Shaped sample_request) sample_request approval_product"
    by (rule sample_reaches)
  from gate_failure_gives_fallback
    [where env = ?env and db = "[]" and body = "Shaped sample_request" and r = sample_request
      and product = approval_product and pf = sample_platform and env' = ?env and db' = "[]"
      and body' = "Shaped sample_request" and t = "[]"]
    r approval_reply_invalid
  show ?thesis by simp
qed

lemma sample_reply_valid:
  "valid (validateAIResponse
       (simulateAIResponse sample_platform sample_product (message sample_request)))"
proof -
  let ?t = "simulateAIResponse sample_platform sample_product (message sample_request)"
  have t: "?t = js ''The Quick Personal Loan offers flexible tenure options ranging from 12 months (1 years) to 60 months (5 years). You can choose a tenure that fits your repayment capacity.''"
    using tenure_reply [of "name sample_product"] by (simp add: sample_product_def js_def)
  have "\<not> (\<exists>ph \<in> set denylist. phrase_at_word_boundaries ph ?t)"
  proof
    assume "\<exists>ph \<in> set denylist. phrase_at_word_boundaries ph ?t"
    then obtain ph where "ph \<in> set denylist" "ci_substring ph ?t"
      using boundary_occurrence_is_substring by blast
    then show False
      unfolding t
      by (auto simp: denylist_def ci_substring_def js_def canonicalize_def sublist_code)
  qed
  then show ?thesis
    using validate_loop_phrases [OF denylist_shape, of ?t]
    by (simp add: validateAIResponse_def suspiciousPatterns_def)
qed

text \<open>
  Claim C9: the reply does not depend on how persisting the two turns goes: with any
  behaviour of \<open>saveChatMessage\<close>, failing or not, the handler returns the same reply;
  and whenever the request reaches the generation of a reply, that reply has status
  200, success, and the generated text or, when the gate rejects it, the fallback.
\<close>

theorem persistence_failure_is_not_fatal:
  "fst (POST pf (env\<lparr>saveChatMessage := save\<rparr>) db body) = fst (POST pf env db body) \<and>
   (reaches_reply env db body r product \<longrightarrow>
      fst (POST pf (env\<lparr>saveChatMessage := save\<rparr>) db body) =
        ok_reply (if valid (validateAIResponse (simulateAIResponse pf product (message r)))
                  then simulateAIResponse pf product (message r) else safe_fallback))"
proof (intro conjI impI)
  show e: "fst (POST pf (env\<lparr>saveChatMessage := save\<rparr>) db body) = fst (POST pf env db body)"
    by (simp add: POST_reply_cases split: request_body.splits sum.splits option.splits)
  assume "reaches_reply env db body r product"
  then show "fst (POST pf (env\<lparr>saveChatMessage := save\<rparr>) db body) =
        ok_reply (if valid (validateAIResponse (simulateAIResponse pf product (message r)))
                  then simulateAIResponse pf product (message r) else safe_fallback)"
    unfolding e by (rule reaches_reply_POST)
qed

theorem persistence_failure_is_not_fatal_witness:
  "reaches_reply sample_env [] (Shaped sample_request) sample_request sample_product \<and>
   fst (POST sample_platform (sample_env\<lparr>saveChatMessage := \<lambda>m db. None\<rparr>) []
          (Shaped sample_request)) =
     ok_reply (simulateAIResponse sample_platform sample_product (message sample_request)) \<and>
   http_status (fst (POST sample_platform (sample_env\<lparr>saveChatMessage := \<lambda>m db. None\<rparr>) []
          (Shaped sample_request))) = 200"
proof -
  have r: "reaches_reply sample_env [] (Shaped sample_request) sample_request sample_product"
    using sample_reaches [of sample_product "[]"] by (simp add: sample_env_def)
  from persistence_failure_is_not_fatal
    [where pf = sample_platform and env = sample_env and save = "\<lambda>m db. None"
      and db = "[]" and body = "Shaped sample_request" and r = sample_request
      and product = sample_product, THEN conjunct2, THEN mp, OF r] sample_reply_valid
  have a: "fst (POST sample_platform (sample_env\<lparr>saveChatMessage := \<lambda>m db. None\<rparr>) []
          (Shaped sample_request)) =
     ok_reply (simulateAIResponse sample_platform sample_product (message sample_request))"
    by (simp only: if_True)
  from r a show ?thesis by (simp only: ok_reply_def reply.simps)
qed

text \<open>
  Claim C10: the handler's result does not depend on the history field of the
  request; the message of a reply is the text \<open>simulateAIResponse\<close> computes from the
  product and the message, or the fallback; and the handler makes no network call.
\<close>

theorem history_is_ignored:
  "POST pf env db (Shaped (r\<lparr>history := h1\<rparr>)) = POST pf env db (Shaped (r\<lparr>history := h2\<rparr>)) \<and>
   (\<forall>e \<in> set (snd (snd (POST pf env db body))). \<not> is_fetch e) \<and>
   (reaches_reply env db body r' product \<longrightarrow>
      reply_message (fst (POST pf env db body)) =
        Some (simulateAIResponse pf product (message r')) \<or>
      reply_message (fst (POST pf env db body)) = Some safe_fallback)"
proof (intro conjI impI)
  show "POST pf env db (Shaped (r\<lparr>history := h1\<rparr>)) = POST pf env db (Shaped (r\<lparr>history := h2\<rparr>))"
    by (simp add: POST_def AIAskSchema_parse_def Let_def)
  show "\<forall>e \<in> set (snd (snd (POST pf env db body))). \<not> is_fetch e"
    by (simp add: POST_def Let_def is_fetch_def
        split: request_body.splits sum.splits option.splits)
  assume "reaches_reply env db body r' product"
  then show "reply_message (fst (POST pf env db body)) =
        Some (simulateAIResponse pf product (message r')) \<or>
      reply_message (fst (POST pf env db body)) = Some safe_fallback"
    using reaches_reply_POST [of env db body r' product pf] by (simp add: ok_reply_def)
qed

theorem history_is_ignored_witness:
  "reaches_reply sample_env [] (Shaped sample_request) sample_request sample_product \<and>
   POST sample_platform sample_env [] (Shaped (sample_request\<lparr>history := Some sample_history\<rparr>)) =
   POST sample_platform sample_env [] (Shaped (sample_request\<lparr>history := None\<rparr>)) \<and>
   reply_message (fst (POST sample_platform sample_env [] (Shaped sample_request))) =
     Some (simulateAIResponse sample_platform sample_product (message sample_request))"
proof -
  have r: "reaches_reply sample_env [] (Shaped sample_request) sample_request sample_product"
    using sample_reaches [of sample_product "[]"] by (simp add: sample_env_def)
  have v: "fst (POST sample_platform sample_env [] (Shaped sample_request)) =
     ok_reply (simulateAIResponse sample_platform sample_product (message sample_request))"
    using reaches_reply_POST [OF r, of sample_platform] sample_reply_valid by simp
  from history_is_ignored
    [where pf = sample_platform and env = sample_env and db = "[]" and r = sample_request
      and ?h1.0 = "Some sample_history" and ?h2.0 = None and body = "Shaped sample_request"
      and r' = sample_request and product = sample_product] r v
  show ?thesis by (simp add: ok_reply_def)
qed

section \<open>The order of the parts of the prompt\<close>

text \<open>
  Claim C2, as stated: the prompt holds, in this order, the listing of the product
  fields, the FAQ block, the transcript, the five-rule system instruction, the user
  question and the closing directive.  This fails: the template starts with the
  system instruction, and for the sample product its text occurs nowhere after the
  listing.
\<close>

theorem claimed_order_counterexample:
  "\<not> in_order [listingPart sample_platform sample_product, faqPart sample_product,
        transcript sample_history, systemInstruction sample_platform sample_product,
        questionLine (js ''What is the interest rate?''), closingDirective]
      (buildGroundedPrompt sample_platform sample_product
         (js ''What is the interest rate?'') sample_history)"
proof
  assume "in_order [listingPart sample_platform sample_product, faqPart sample_product,
        transcript sample_history, systemInstruction sample_platform sample_product,
        questionLine (js ''What is the interest rate?''), closingDirective]
      (buildGroundedPrompt sample_platform sample_product
         (js ''What is the interest rate?'') sample_history)"
  then obtain a b where ab: "a \<noteq> []"
    "buildGroundedPrompt sample_platform sample_product
         (js ''What is the interest rate?'') sample_history =
       a @ systemInstruction sample_platform sample_product @ b"
    using claimed_order_needs_late_instruction by blast
  have "a = []"
  proof (rule instruction_only_at_start [OF _ _ _ sample_bracket_free _ ab(2)])
    show "91 \<notin> set (name sample_product)" by (simp add: sample_product_def js_def)
    show "91 \<notin> set (bank sample_product)" by (simp add: sample_product_def js_def)
    show "91 \<notin> set (numToString sample_platform (rate_apr sample_product))"
      by (simp add: sample_product_def sample_numbers js_def)
    show "91 \<notin> set (js ''What is the interest rate?'')" by (simp add: js_def)
  qed
  with ab(1) show False by simp
qed

text \<open>
  Claim C2, amended: for every product record, question and sequence of prior turns
  the prompt holds its six parts in the order (4) the five-rule system instruction,
  (1) the listing of the product fields, (2) the FAQ block (empty when there are no
  FAQ entries), (3) the transcript (empty when there are no prior turns), (5) the
  user question, (6) the closing directive.  The listing and the FAQ block appear as
  \<open>trim\<close> leaves them, without trailing white space.
\<close>

theorem prompt_parts_in_code_order:
  "in_order [systemInstruction pf p, listingPart pf p, faqPart p, transcript h,
             questionLine m, closingDirective]
     (buildGroundedPrompt pf p m h)"
proof -
  obtain gap where pc: "productContext pf p = listingPart pf p @ gap @ faqPart p"
    using context_as_parts by blast
  obtain g1 g2 where hc: "historyContext h = g1 @ transcript h @ g2"
    by (metis history_parts append_Nil append_Nil2 append_Cons)
  let ?s6 = "[10, 10] @ closingDirective @ []"
  let ?s5 = "(g2 @ [10, 10]) @ questionLine m @ ?s6"
  let ?s4 = "([10, 10] @ g1) @ transcript h @ ?s5"
  let ?s3 = "gap @ faqPart p @ ?s4"
  let ?s2 = "[10, 10] @ listingPart pf p @ ?s3"
  let ?s1 = "[] @ systemInstruction pf p @ ?s2"
  have 7: "in_order [] []" by simp
  have 6: "in_order [closingDirective] ?s6" by (rule in_order_step [OF 7])
  have 5: "in_order [questionLine m, closingDirective] ?s5" by (rule in_order_step [OF 6])
  have 4: "in_order [transcript h, questionLine m, closingDirective] ?s4"
    by (rule in_order_step [OF 5])
  have 3: "in_order [faqPart p, transcript h, questionLine m, closingDirective] ?s3"
    by (rule in_order_step [OF 4])
  have 2: "in_order [listingPart pf p, faqPart p, transcript h, questionLine m,
                     closingDirective] ?s2"
    by (rule in_order_step [OF 3])
  have 1: "in_order [systemInstruction pf p, listingPart pf p, faqPart p, transcript h,
                     questionLine m, closingDirective] ?s1"
    by (rule in_order_step [OF 2])
  have "buildGroundedPrompt pf p m h = ?s1"
    by (simp add: prompt_parts pc hc)
  with 1 show ?thesis by simp
qed

section \<open>Optional fields of the listing\<close>

text \<open>
  Claim C3, as stated: each optional field yields exactly one labelled line when its
  value is present and none when it is absent.  This fails for a processing fee of
  zero: the value is present in the record, and the prompt has no processing-fee line.
\<close>

theorem zero_fee_counterexample:
  "processing_fee_pct zero_fee_product = Some (Fin 0) \<and>
   count_lines fee_label
     (buildGroundedPrompt sample_platform zero_fee_product
        (js ''What is the processing fee?'') []) = 0"
proof -
  have s: "single_line_inputs sample_platform zero_fee_product
             (js ''What is the processing fee?'') []"
    by (simp add: single_line_inputs_def sample_single_line)
  have "count_lines fee_label
     (buildGroundedPrompt sample_platform zero_fee_product
        (js ''What is the processing fee?'') []) =
     length (filter (prefix fee_label) (optional_lines sample_platform zero_fee_product))"
    by (rule label_count_in_optional [OF s]) simp
  also have "\<dots> = 0"
    by (simp add: optional_lines_def optional_prefixes zero_fee_product_def sample_product_def)
  finally show ?thesis by (simp add: zero_fee_product_def)
qed

text \<open>
  Claim C3, amended: for a product record, question and prior turns whose texts are
  single-line, the prompt has exactly one line starting with the label of an optional
  field when the field's value is truthy (a processing fee that is a number other
  than zero and NaN; a non-empty disbursal speed, documentation level or summary) or,
  for the prepayment flag, defined; and no line starting with that label otherwise.
\<close>

theorem optional_field_lines:
  assumes "single_line_inputs pf p m h"
  shows "count_lines fee_label (buildGroundedPrompt pf p m h) =
           (if truthy_num (processing_fee_pct p) then 1 else 0) \<and>
         count_lines prepayment_label (buildGroundedPrompt pf p m h) =
           (if prepayment_allowed p \<noteq> None then 1 else 0) \<and>
         count_lines speed_label (buildGroundedPrompt pf p m h) =
           (if truthy_str (disbursal_speed p) then 1 else 0) \<and>
         count_lines docs_label (buildGroundedPrompt pf p m h) =
           (if truthy_str (docs_level p) then 1 else 0) \<and>
         count_lines summary_label (buildGroundedPrompt pf p m h) =
           (if truthy_str (summary p) then 1 else 0)"
proof -
  have o: "count_lines L (buildGroundedPrompt pf p m h) =
           length (filter (prefix L) (optional_lines pf p))"
    if "L = fee_label \<or> L = prepayment_label \<or> L = speed_label \<or> L = docs_label \<or>
        L = summary_label" for L
    using assms that by (rule label_count_in_optional)
  show ?thesis
    by (simp add: o optional_lines_def optional_prefixes)
qed

theorem optional_field_lines_witness:
  "single_line_inputs sample_platform sample_product (js ''What is the fee?'') sample_history \<and>
   count_lines fee_label
     (buildGroundedPrompt sample_platform sample_product (js ''What is the fee?'') sample_history) = 1 \<and>
   count_lines summary_label
     (buildGroundedPrompt sample_platform sample_product (js ''What is the fee?'') sample_history) = 1 \<and>
   count_lines summary_label
     (buildGroundedPrompt sample_platform (sample_product\<lparr>summary := None\<rparr>)
        (js ''What is the fee?'') sample_history) = 0"
proof -
  have s: "single_line_inputs sample_platform sample_product (js ''What is the fee?'')
             sample_history"
    by (simp add: single_line_inputs_def sample_single_line sample_history_single_line)
  have s': "single_line_inputs sample_platform (sample_product\<lparr>summary := None\<rparr>)
             (js ''What is the fee?'') sample_history"
    using s by (simp add: single_line_inputs_def single_line_product_def opt_single_line_def)
  from optional_field_lines [OF s] optional_field_lines [OF s'] s
  show ?thesis by (simp add: sample_product_def js_def)
qed

end
